theory Spec2Isabelle
  imports Main "HOL-Library.Char_ord" "HOL-Library.List_Lexorder" "HOL-Library.Sublist"
begin

section \<open>Go library functions used by the backend\<close>

text \<open>
  A Go string is a sequence of bytes, and so is an Isabelle \<open>string\<close>; \<open>len\<close> is
  \<open>length\<close> and \<open>t[:32]\<close> is \<open>take 32 t\<close>.

  \<open>strings.TrimSpace\<close> removes the leading and the trailing characters for which
  \<open>unicode.IsSpace\<close> holds. These are the code points U+0009 to U+000D, U+0020, U+0085,
  U+00A0, U+1680, U+2000 to U+200A, U+2028, U+2029, U+202F, U+205F and U+3000; the
  table \<open>unicodeSpace\<close> lists their UTF-8 encodings. A lead byte of UTF-8 is never a
  continuation byte, so the first character of a string is one of them exactly when the
  string begins with its encoding, and the last character is one of them exactly when
  the string ends with its encoding; bytes that are not valid UTF-8 decode to U+FFFD,
  which is no white space.
\<close>

definition unicodeSpace :: "string list" where
  "unicodeSpace =
     [[CHR 0x09], [CHR 0x0A], [CHR 0x0B], [CHR 0x0C], [CHR 0x0D], [CHR 0x20],
      [CHR 0xC2, CHR 0x85], [CHR 0xC2, CHR 0xA0],
      [CHR 0xE1, CHR 0x9A, CHR 0x80],
      [CHR 0xE2, CHR 0x80, CHR 0x80], [CHR 0xE2, CHR 0x80, CHR 0x81],
      [CHR 0xE2, CHR 0x80, CHR 0x82], [CHR 0xE2, CHR 0x80, CHR 0x83],
      [CHR 0xE2, CHR 0x80, CHR 0x84], [CHR 0xE2, CHR 0x80, CHR 0x85],
      [CHR 0xE2, CHR 0x80, CHR 0x86], [CHR 0xE2, CHR 0x80, CHR 0x87],
      [CHR 0xE2, CHR 0x80, CHR 0x88], [CHR 0xE2, CHR 0x80, CHR 0x89],
      [CHR 0xE2, CHR 0x80, CHR 0x8A],
      [CHR 0xE2, CHR 0x80, CHR 0xA8], [CHR 0xE2, CHR 0x80, CHR 0xA9],
      [CHR 0xE2, CHR 0x80, CHR 0xAF],
      [CHR 0xE2, CHR 0x81, CHR 0x9F],
      [CHR 0xE3, CHR 0x80, CHR 0x80]]"

text \<open>The white-space character at the start and at the end of a string, if there is one.\<close>

definition leadingSpace :: "string \<Rightarrow> string option" where
  "leadingSpace s = find (\<lambda>w. take (length w) s = w) unicodeSpace"

definition trailingSpace :: "string \<Rightarrow> string option" where
  "trailingSpace s = find (\<lambda>w. drop (length s - length w) s = w) unicodeSpace"

text \<open>\<open>strings.TrimLeftFunc\<close> and \<open>strings.TrimRightFunc\<close> with \<open>unicode.IsSpace\<close>.\<close>

function TrimLeft :: "string \<Rightarrow> string" where
  "TrimLeft s = (case leadingSpace s of None \<Rightarrow> s | Some w \<Rightarrow> TrimLeft (drop (length w) s))"
  by pat_completeness auto
termination
proof (relation "measure length")
  fix s w
  assume "leadingSpace s = Some w"
  then have w: "w \<in> set unicodeSpace" and t: "take (length w) s = w"
    by (auto simp: leadingSpace_def find_Some_iff)
  from w have "w \<noteq> []" by (auto simp: unicodeSpace_def)
  with t have "s \<noteq> []" by auto
  with \<open>w \<noteq> []\<close> show "(drop (length w) s, s) \<in> measure length" by simp
qed simp

function TrimRight :: "string \<Rightarrow> string" where
  "TrimRight s =
     (case trailingSpace s of None \<Rightarrow> s | Some w \<Rightarrow> TrimRight (take (length s - length w) s))"
  by pat_completeness auto
termination
proof (relation "measure length")
  fix s w
  assume "trailingSpace s = Some w"
  then have w: "w \<in> set unicodeSpace" and t: "drop (length s - length w) s = w"
    by (auto simp: trailingSpace_def find_Some_iff)
  from w have "w \<noteq> []" by (auto simp: unicodeSpace_def)
  with t have "s \<noteq> []" by auto
  with \<open>w \<noteq> []\<close> show "(take (length s - length w) s, s) \<in> measure length" by simp
qed simp

declare TrimLeft.simps [simp del] TrimRight.simps [simp del]

definition TrimSpace :: "string \<Rightarrow> string" where
  "TrimSpace s = TrimRight (TrimLeft s)"

text \<open>A string that is empty or consists of white-space characters.\<close>

inductive whitespaceOnly :: "string \<Rightarrow> bool" where
  empty: "whitespaceOnly []"
| rune: "w \<in> set unicodeSpace \<Longrightarrow> whitespaceOnly s \<Longrightarrow> whitespaceOnly (w @ s)"

text \<open>
  \<open>strings.ToLower\<close>: a string of ASCII bytes is lowered byte by byte, \<open>A..Z\<close> to
  \<open>a..z\<close>. Any other string goes through \<open>strings.Map(unicode.ToLower, s)\<close>, which rests
  on the case tables of the Unicode library; that function is the parameter \<open>lower\<close>.
\<close>

definition isASCII :: "char \<Rightarrow> bool" where
  "isASCII c \<longleftrightarrow> c < CHR 0x80"

definition toLowerByte :: "char \<Rightarrow> char" where
  "toLowerByte c =
     (if CHR ''A'' \<le> c \<and> c \<le> CHR ''Z'' then char_of (of_char c + (32::nat)) else c)"

definition ToLower :: "(string \<Rightarrow> string) \<Rightarrow> string \<Rightarrow> string" where
  "ToLower lower s = (if list_all isASCII s then map toLowerByte s else lower s)"

definition HasSuffix :: "string \<Rightarrow> string \<Rightarrow> bool" where
  "HasSuffix s suf \<longleftrightarrow>
     length suf \<le> length s \<and> drop (length s - length suf) s = suf"

definition isDigit :: "char \<Rightarrow> bool" where
  "isDigit c \<longleftrightarrow> CHR ''0'' \<le> c \<and> c \<le> CHR ''9''"

definition digitsValue :: "string \<Rightarrow> int" where
  "digitsValue ds = foldl (\<lambda>n c. n * 10 + (int (of_char c) - 48)) 0 ds"

text \<open>
  \<open>strconv.Atoi\<close>: an optional sign, then at least one decimal digit and nothing else;
  a value outside the 64-bit \<open>int\<close> is an error as well. \<open>None\<close> is the error.
\<close>

definition Atoi :: "string \<Rightarrow> int option" where
  "Atoi s =
     (let neg = (s \<noteq> [] \<and> hd s = CHR ''-'');
          ds = (if s \<noteq> [] \<and> (hd s = CHR ''-'' \<or> hd s = CHR ''+'') then tl s else s)
      in if ds = [] \<or> \<not> list_all isDigit ds then None
         else let v = (if neg then - digitsValue ds else digitsValue ds)
              in if v < - (2 ^ 63) \<or> 2 ^ 63 - 1 < v then None else Some v)"

text \<open>\<open>strconv.ParseBool\<close> accepts twelve literals and nothing else.\<close>

definition ParseBool :: "string \<Rightarrow> bool option" where
  "ParseBool s =
     (if s \<in> {''1'', ''t'', ''T'', ''TRUE'', ''true'', ''True''} then Some True
      else if s \<in> {''0'', ''f'', ''F'', ''FALSE'', ''false'', ''False''} then Some False
      else None)"

text \<open>Go's \<open>int\<close> is 64 bits wide and its arithmetic wraps around.\<close>

definition wrap64 :: "int \<Rightarrow> int" where
  "wrap64 x = (x + 2 ^ 63) mod 2 ^ 64 - 2 ^ 63"

section \<open>Helpers of the server\<close>

definition parsePositiveInt :: "string \<Rightarrow> int \<Rightarrow> int" where
  "parsePositiveInt raw fallback =
     (if raw = [] then fallback
      else case Atoi raw of
             None \<Rightarrow> fallback
           | Some v \<Rightarrow> if v \<le> 0 then fallback else v)"

text \<open>
  The loop of \<open>sanitizeTags\<close>, with its two variables: the set \<open>uniq\<close> of the tags
  seen and the slice \<open>clean\<close> that is returned.
\<close>

fun sanitizeTags_loop ::
    "(string \<Rightarrow> string) \<Rightarrow> string list \<Rightarrow> string set \<Rightarrow> string list \<Rightarrow> string list" where
  "sanitizeTags_loop lower [] uniq clean = clean"
| "sanitizeTags_loop lower (tag # tags) uniq clean =
     (let t = ToLower lower (TrimSpace tag)
      in if t = [] then sanitizeTags_loop lower tags uniq clean
         else let t' = (if length t > 32 then take 32 t else t)
              in if t' \<in> uniq then sanitizeTags_loop lower tags uniq clean
                 else sanitizeTags_loop lower tags (insert t' uniq) (clean @ [t']))"

definition sanitizeTags :: "(string \<Rightarrow> string) \<Rightarrow> string list \<Rightarrow> string list" where
  "sanitizeTags lower tags =
     (if length tags = 0 then [] else sanitizeTags_loop lower tags {} [])"

text \<open>
  The specification's account of one tag: lowercase, trim, truncate to 32; and of
  de-duplication that keeps the first occurrence. Lemma \<open>sanitizeTags_eq\<close> compares
  them with the loop of \<open>sanitizeTags\<close>.
\<close>

definition normalizeTag :: "(string \<Rightarrow> string) \<Rightarrow> string \<Rightarrow> string" where
  "normalizeTag lower tag =
     (let t = ToLower lower (TrimSpace tag) in if length t > 32 then take 32 t else t)"

fun dedup_first :: "'a list \<Rightarrow> 'a list" where
  "dedup_first [] = []"
| "dedup_first (x # xs) = x # dedup_first (filter (\<lambda>y. y \<noteq> x) xs)"

section \<open>Data model\<close>

text \<open>
  The rows of the tables \<open>notes\<close> and \<open>sessions\<close> of \<open>001_init.sql\<close>, with the
  columns the server reads and writes. The Go struct \<open>note\<close> is the record
  \<open>note_row\<close>. A \<open>uuid\<close> is compared for equality only; a \<open>timestamptz\<close> is a
  number of microseconds.
\<close>

type_synonym uuid = nat
type_synonym timestamp = int

record note_row =
  ID :: uuid
  Title :: string
  Content :: string
  Tags :: "string list"
  IsFavorite :: bool
  CreatedAt :: timestamp
  UpdatedAt :: timestamp

record session =
  token :: string
  expires_at :: timestamp

record db =
  notes_tbl :: "note_row list"
  sessions_tbl :: "session list"

text \<open>
  What a handler writes: the status, the JSON payload and whether the session cookie is
  cleared.
\<close>

datatype body =
    ErrorBody string
  | OkBody
  | NoteBody note_row
  | ListBody "note_row list" int int int
  | NoBody

datatype cookie_action = KeepCookie | ClearCookie

record response =
  status :: nat
  body :: body
  set_cookie :: cookie_action

definition writeJSON :: "nat \<Rightarrow> body \<Rightarrow> response" where
  "writeJSON st payload = \<lparr>status = st, body = payload, set_cookie = KeepCookie\<rparr>"

definition writeError :: "nat \<Rightarrow> string \<Rightarrow> response" where
  "writeError st message = writeJSON st (ErrorBody message)"

text \<open>\<open>r.URL.Query().Get\<close>: the value of a parameter, the empty string when it is absent.\<close>

type_synonym query_params = "string \<rightharpoonup> string"

definition Get :: "query_params \<Rightarrow> string \<Rightarrow> string" where
  "Get q k = (case q k of None \<Rightarrow> [] | Some v \<Rightarrow> v)"

text \<open>
  \<open>uuid.Parse\<close> belongs to a library; the handlers take it as the parameter \<open>parse\<close>.
\<close>

definition parseUUIDParam :: "(string \<Rightarrow> uuid option) \<Rightarrow> string \<Rightarrow> string \<Rightarrow> string + uuid" where
  "parseUUIDParam parse name raw =
     (if raw = [] then Inl (name @ '' is required'')
      else case parse raw of
             None \<Rightarrow> Inl (''invalid '' @ name)
           | Some parsed \<Rightarrow> Inr parsed)"

section \<open>Session check and logout\<close>

text \<open>
  \<open>cookie\<close> is \<open>None\<close> when \<open>r.Cookie\<close> returns an error; \<open>db_ok\<close> says whether the
  statement runs without a database error; \<open>now\<close> is the value of \<open>NOW()\<close>. The result
  \<open>Inl\<close> is the response that ends the request, \<open>Inr token\<close> is the call of the next
  handler with the token in the context.
\<close>

definition session_exists :: "timestamp \<Rightarrow> string \<Rightarrow> db \<Rightarrow> bool" where
  "session_exists now tok d \<longleftrightarrow> list_ex (\<lambda>s. token s = tok \<and> expires_at s > now) (sessions_tbl d)"

definition requireSession :: "bool \<Rightarrow> timestamp \<Rightarrow> string option \<Rightarrow> db \<Rightarrow> response + string" where
  "requireSession db_ok now cookie d =
     (case cookie of
        None \<Rightarrow> Inl (writeError 401 ''unauthorized'')
      | Some v \<Rightarrow>
          if TrimSpace v = [] then Inl (writeError 401 ''unauthorized'')
          else let tok = TrimSpace v
               in if \<not> db_ok then Inl (writeError 500 ''database error'')
                  else if \<not> session_exists now tok d then Inl (writeError 401 ''unauthorized'')
                  else Inr tok)"

definition clearSessionCookie :: "response \<Rightarrow> response" where
  "clearSessionCookie r = r\<lparr>set_cookie := ClearCookie\<rparr>"

definition handleLogout :: "bool \<Rightarrow> string option \<Rightarrow> db \<Rightarrow> response \<times> db" where
  "handleLogout db_ok cookie d =
     (let d' = (case cookie of
                  None \<Rightarrow> d
                | Some v \<Rightarrow>
                    if TrimSpace v \<noteq> [] \<and> db_ok
                    then d\<lparr>sessions_tbl := filter (\<lambda>s. token s \<noteq> v) (sessions_tbl d)\<rparr>
                    else d)
      in (clearSessionCookie (writeJSON 200 OkBody), d'))"

section \<open>Notes\<close>

text \<open>
  The pattern matching of \<open>LIKE\<close>: \<open>%\<close> stands for any sequence, \<open>_\<close> for any one
  character, and a backslash takes the next character of the pattern literally.
  \<open>ILIKE\<close> compares without regard to case; the database folds the case, here of the
  letters \<open>A..Z\<close>.
\<close>

fun like_match :: "string \<Rightarrow> string \<Rightarrow> bool" where
  "like_match [] s = (s = [])"
| "like_match (p # ps) s =
     (if p = CHR ''%'' then
        like_match ps s \<or> (case s of [] \<Rightarrow> False | c # cs \<Rightarrow> like_match (p # ps) cs)
      else if p = CHR ''_'' then
        (case s of [] \<Rightarrow> False | c # cs \<Rightarrow> like_match ps cs)
      else if p = CHR 0x5C then
        (case ps of
           [] \<Rightarrow> False
         | q # qs \<Rightarrow> (case s of [] \<Rightarrow> False | c # cs \<Rightarrow> c = q \<and> like_match qs cs))
      else (case s of [] \<Rightarrow> False | c # cs \<Rightarrow> c = p \<and> like_match ps cs))"

definition ilike :: "string \<Rightarrow> string \<Rightarrow> bool" where
  "ilike s pattern = like_match (map toLowerByte pattern) (map toLowerByte s)"

text \<open>The \<open>WHERE\<close> clause shared by the count query and the page query of \<open>handleListNotes\<close>.\<close>

definition note_matches :: "string \<Rightarrow> string \<Rightarrow> bool option \<Rightarrow> note_row \<Rightarrow> bool" where
  "note_matches query tag favorite n \<longleftrightarrow>
     (query = [] \<or> ilike (Title n) (''%'' @ query @ ''%'') \<or> ilike (Content n) (''%'' @ query @ ''%''))
     \<and> (tag = [] \<or> tag \<in> set (Tags n))
     \<and> (case favorite of None \<Rightarrow> True | Some f \<Rightarrow> IsFavorite n = f)"

text \<open>\<open>ORDER BY updated_at DESC\<close>, rows with equal keys in table order.\<close>

definition order_by_updated_desc :: "note_row list \<Rightarrow> note_row list" where
  "order_by_updated_desc ns = sort_key (\<lambda>n. - UpdatedAt n) ns"

text \<open>The points at which the two statements of \<open>handleListNotes\<close> can fail.\<close>

record list_faults =
  count_fails :: bool
  query_fails :: bool
  scan_fails :: bool
  rows_fails :: bool

definition list_offset :: "int \<Rightarrow> int \<Rightarrow> int" where
  "list_offset page limit = wrap64 ((page - 1) * limit)"

definition handleListNotes :: "list_faults \<Rightarrow> query_params \<Rightarrow> db \<Rightarrow> response" where
  "handleListNotes f q d =
     (let query = TrimSpace (Get q ''query'');
          tag = TrimSpace (Get q ''tag'');
          favoriteRaw = TrimSpace (Get q ''favorite'')
      in if favoriteRaw \<noteq> [] \<and> ParseBool favoriteRaw = None
         then writeError 400 ''favorite must be true or false''
         else
           let favorite = (if favoriteRaw \<noteq> [] then ParseBool favoriteRaw else None);
               page = parsePositiveInt (Get q ''page'') 1;
               limit0 = parsePositiveInt (Get q ''limit'') 30;
               limit = (if limit0 > 100 then 100 else limit0);
               offset = list_offset page limit
           in if count_fails f then writeError 500 ''database error''
              else
                let total = int (length (filter (note_matches query tag favorite) (notes_tbl d)))
                in if query_fails f \<or> offset < 0 then writeError 500 ''database error''
                   else
                     let items = take (nat limit) (drop (nat offset)
                                   (order_by_updated_desc
                                      (filter (note_matches query tag favorite) (notes_tbl d))))
                     in if items \<noteq> [] \<and> scan_fails f then writeError 500 ''database error''
                        else if rows_fails f then writeError 500 ''database error''
                        else writeJSON 200 (ListBody items page limit total))"

text \<open>Names for the parts of a list call: the effective page and limit, the filter, the page slice.\<close>

definition effective_page :: "query_params \<Rightarrow> int" where
  "effective_page q = parsePositiveInt (Get q ''page'') 1"

definition effective_limit :: "query_params \<Rightarrow> int" where
  "effective_limit q =
     (let limit = parsePositiveInt (Get q ''limit'') 30 in if limit > 100 then 100 else limit)"

definition list_predicate :: "query_params \<Rightarrow> note_row \<Rightarrow> bool" where
  "list_predicate q =
     note_matches (TrimSpace (Get q ''query'')) (TrimSpace (Get q ''tag''))
       (ParseBool (TrimSpace (Get q ''favorite'')))"

definition list_page :: "query_params \<Rightarrow> db \<Rightarrow> note_row list" where
  "list_page q d =
     take (nat (effective_limit q))
       (drop (nat (list_offset (effective_page q) (effective_limit q)))
          (order_by_updated_desc (filter (list_predicate q) (notes_tbl d))))"

definition handleGetNote :: "(string \<Rightarrow> uuid option) \<Rightarrow> bool \<Rightarrow> string \<Rightarrow> db \<Rightarrow> response" where
  "handleGetNote parse db_ok raw d =
     (case parseUUIDParam parse ''id'' raw of
        Inl msg \<Rightarrow> writeError 400 msg
      | Inr noteID \<Rightarrow>
          if \<not> db_ok then writeError 500 ''database error''
          else case find (\<lambda>n. ID n = noteID) (notes_tbl d) of
                 None \<Rightarrow> writeError 404 ''note not found''
               | Some n \<Rightarrow> writeJSON 200 (NoteBody n))"

text \<open>The decoded JSON body of create and update; \<open>None\<close> is a body that does not decode.\<close>

record note_request =
  req_title :: string
  req_content :: string
  req_tags :: "string list"
  req_is_favorite :: bool

text \<open>
  \<open>new_id\<close> is the value of \<open>uuid.New()\<close>. The \<open>INSERT\<close> fails when the database fails
  or when the primary key is taken already.
\<close>

definition handleCreateNote ::
    "(string \<Rightarrow> string) \<Rightarrow> bool \<Rightarrow> timestamp \<Rightarrow> uuid \<Rightarrow> note_request option \<Rightarrow> db \<Rightarrow> response \<times> db" where
  "handleCreateNote lower db_ok now new_id body_json d =
     (case body_json of
        None \<Rightarrow> (writeError 400 ''invalid json body'', d)
      | Some req \<Rightarrow>
          let title0 = TrimSpace (req_title req);
              title = (if title0 = [] then ''Untitled'' else title0);
              content = req_content req;
              tags = sanitizeTags lower (req_tags req)
          in if \<not> db_ok \<or> list_ex (\<lambda>n. ID n = new_id) (notes_tbl d)
             then (writeError 500 ''database error'', d)
             else
               let n = \<lparr>ID = new_id, Title = title, Content = content, Tags = tags,
                        IsFavorite = req_is_favorite req, CreatedAt = now, UpdatedAt = now\<rparr>
               in (writeJSON 201 (NoteBody n), d\<lparr>notes_tbl := notes_tbl d @ [n]\<rparr>))"

definition handleUpdateNote ::
    "(string \<Rightarrow> string) \<Rightarrow> (string \<Rightarrow> uuid option) \<Rightarrow> bool \<Rightarrow> timestamp \<Rightarrow> string \<Rightarrow> note_request option \<Rightarrow> db
       \<Rightarrow> response \<times> db" where
  "handleUpdateNote lower parse db_ok now raw body_json d =
     (case parseUUIDParam parse ''id'' raw of
        Inl msg \<Rightarrow> (writeError 400 msg, d)
      | Inr noteID \<Rightarrow>
          (case body_json of
             None \<Rightarrow> (writeError 400 ''invalid json body'', d)
           | Some req \<Rightarrow>
               let title0 = TrimSpace (req_title req);
                   title = (if title0 = [] then ''Untitled'' else title0);
                   tags = sanitizeTags lower (req_tags req);
                   upd = (\<lambda>n. n\<lparr>Title := title, Content := req_content req, Tags := tags,
                                 IsFavorite := req_is_favorite req, UpdatedAt := now\<rparr>)
               in if \<not> db_ok then (writeError 500 ''database error'', d)
                  else case find (\<lambda>n. ID n = noteID) (notes_tbl d) of
                         None \<Rightarrow> (writeError 404 ''note not found'', d)
                       | Some n \<Rightarrow>
                           (writeJSON 200 (NoteBody (upd n)),
                            d\<lparr>notes_tbl := map (\<lambda>m. if ID m = noteID then upd m else m) (notes_tbl d)\<rparr>)))"

definition handleDeleteNote ::
    "(string \<Rightarrow> uuid option) \<Rightarrow> bool \<Rightarrow> string \<Rightarrow> db \<Rightarrow> response \<times> db" where
  "handleDeleteNote parse db_ok raw d =
     (case parseUUIDParam parse ''id'' raw of
        Inl msg \<Rightarrow> (writeError 400 msg, d)
      | Inr noteID \<Rightarrow>
          if \<not> db_ok then (writeError 500 ''database error'', d)
          else
            let rowsAffected = length (filter (\<lambda>n. ID n = noteID) (notes_tbl d))
            in if rowsAffected = 0 then (writeError 404 ''note not found'', d)
               else (\<lparr>status = 204, body = NoBody, set_cookie = KeepCookie\<rparr>,
                     d\<lparr>notes_tbl := filter (\<lambda>n. ID n \<noteq> noteID) (notes_tbl d)\<rparr>))"

text \<open>Names for what create and update store: the title, the new row, the row after an update.\<close>

definition stored_title :: "string \<Rightarrow> string" where
  "stored_title t = (if TrimSpace t = [] then ''Untitled'' else TrimSpace t)"

definition created_row :: "(string \<Rightarrow> string) \<Rightarrow> timestamp \<Rightarrow> uuid \<Rightarrow> note_request \<Rightarrow> note_row" where
  "created_row lower now new_id req =
     \<lparr>ID = new_id, Title = stored_title (req_title req), Content = req_content req,
      Tags = sanitizeTags lower (req_tags req), IsFavorite = req_is_favorite req,
      CreatedAt = now, UpdatedAt = now\<rparr>"

definition updated_row :: "(string \<Rightarrow> string) \<Rightarrow> timestamp \<Rightarrow> note_request \<Rightarrow> note_row \<Rightarrow> note_row" where
  "updated_row lower now req n =
     n\<lparr>Title := stored_title (req_title req), Content := req_content req,
       Tags := sanitizeTags lower (req_tags req), IsFavorite := req_is_favorite req, UpdatedAt := now\<rparr>"

section \<open>Schema migrations\<close>

text \<open>
  The database as the migration runner sees it: the schema, which the migration files
  change, and the rows of \<open>schema_migrations\<close>, the ledger. The directory, the files and
  the points at which the file system or the database can fail are parameters.

  What a file's SQL does is not part of the server either. \<open>tx.Exec(ctx, string(content))\<close>
  has no arguments, so the text of the file goes to the database as it is, and a file can
  hold statements that end the transaction the runner began (\<open>COMMIT\<close>) or begin
  another. \<open>exec_sql\<close> therefore works on a \<open>tx_view\<close>: the schema that is committed,
  and the schema as the open transaction sees it (\<open>None\<close> when no transaction is open).
  It returns the view after the file and whether every statement of the file ran.
\<close>

record dir_entry =
  Name :: string
  IsDir :: bool

record 's mig_db =
  schema :: 's
  ledger :: "string list"

record 's tx_view =
  durable :: 's
  pending :: "'s option"

record 's mig_env =
  ensure_ok :: bool
  read_dir :: "dir_entry list option"
  check_ok :: "string \<Rightarrow> bool"
  read_file :: "string \<Rightarrow> string option"
  begin_ok :: "string \<Rightarrow> bool"
  exec_sql :: "string \<Rightarrow> 's tx_view \<Rightarrow> 's tx_view \<times> bool"
  persist_ok :: "string \<Rightarrow> bool"
  commit_ok :: "string \<Rightarrow> bool"

datatype mig_error =
    EnsureTable
  | ReadDir
  | CheckMigration string
  | ReadMigration string
  | StartTx string
  | RunMigration string
  | PersistMigration string
  | CommitMigration string


text \<open>
  The body of the loop over \<open>migrationNames\<close>, from the committed state \<open>d\<close> to the
  committed state after the file. \<open>db.Begin\<close> opens a transaction on \<open>d\<close>. After
  \<open>tx.Exec\<close> of the file, \<open>tx.Rollback\<close> and a failed \<open>tx.Commit\<close> leave what is
  committed by then, which is \<open>d\<close> unless the file committed something itself. The
  \<open>INSERT\<close> into the ledger belongs to the open transaction and is committed with it by
  \<open>tx.Commit\<close>; when the file has left no transaction open, the \<open>INSERT\<close> is
  committed on its own.
\<close>

definition runMigrations_body :: "'s mig_env \<Rightarrow> string \<Rightarrow> 's mig_db \<Rightarrow> mig_error option \<times> 's mig_db" where
  "runMigrations_body env name d =
     (if \<not> check_ok env name then (Some (CheckMigration name), d)
      else if name \<in> set (ledger d) then (None, d)
      else case read_file env name of
             None \<Rightarrow> (Some (ReadMigration name), d)
           | Some content \<Rightarrow>
               if \<not> begin_ok env name then (Some (StartTx name), d)
               else
                 (case exec_sql env content \<lparr>durable = schema d, pending = Some (schema d)\<rparr> of
                    (v, False) \<Rightarrow> (Some (RunMigration name), d\<lparr>schema := durable v\<rparr>)
                  | (v, True) \<Rightarrow>
                      if \<not> persist_ok env name
                      then (Some (PersistMigration name), d\<lparr>schema := durable v\<rparr>)
                      else
                        (case pending v of
                           None \<Rightarrow>
                             (if commit_ok env name then None else Some (CommitMigration name),
                              \<lparr>schema = durable v, ledger = ledger d @ [name]\<rparr>)
                         | Some s' \<Rightarrow>
                             if \<not> commit_ok env name
                             then (Some (CommitMigration name), d\<lparr>schema := durable v\<rparr>)
                             else (None, \<lparr>schema = s', ledger = ledger d @ [name]\<rparr>))))"






section \<open>Properties of the library functions\<close>

lemma unicodeSpace_nonempty: "w \<in> set unicodeSpace \<Longrightarrow> w \<noteq> []"
  by (auto simp: unicodeSpace_def)

lemma leadingSpace_SomeD:
  "leadingSpace s = Some w \<Longrightarrow> w \<in> set unicodeSpace \<and> s = w @ drop (length w) s"
proof -
  assume "leadingSpace s = Some w"
  then have "w \<in> set unicodeSpace" and "take (length w) s = w"
    by (auto simp: leadingSpace_def find_Some_iff)
  then show ?thesis by (metis append_take_drop_id)
qed

lemma trailingSpace_SomeD:
  "trailingSpace s = Some w \<Longrightarrow> w \<in> set unicodeSpace \<and> s = take (length s - length w) s @ w"
proof -
  assume "trailingSpace s = Some w"
  then have "w \<in> set unicodeSpace" and "drop (length s - length w) s = w"
    by (auto simp: trailingSpace_def find_Some_iff)
  then show ?thesis by (metis append_take_drop_id)
qed

text \<open>No encoding of the table begins another one, so the table finds the rune it is given.\<close>

lemma leadingSpace_append: "w \<in> set unicodeSpace \<Longrightarrow> leadingSpace (w @ s) = Some w"
  by (simp add: unicodeSpace_def, elim disjE) (simp_all add: leadingSpace_def unicodeSpace_def)

lemma leadingSpace_Nil: "leadingSpace [] = None"
  by (simp add: leadingSpace_def unicodeSpace_def)

lemma trailingSpace_Nil: "trailingSpace [] = None"
  by (simp add: trailingSpace_def unicodeSpace_def)

lemma TrimLeft_Nil: "TrimLeft [] = []"
  by (simp add: TrimLeft.simps leadingSpace_Nil)

lemma TrimRight_Nil: "TrimRight [] = []"
  by (simp add: TrimRight.simps trailingSpace_Nil)

lemma TrimLeft_rune: "w \<in> set unicodeSpace \<Longrightarrow> TrimLeft (w @ s) = TrimLeft s"
  by (simp add: TrimLeft.simps [of "w @ s"] leadingSpace_append)

lemma whitespaceOnly_TrimLeft: "whitespaceOnly s \<Longrightarrow> TrimLeft s = []"
  by (induction rule: whitespaceOnly.induct) (simp_all add: TrimLeft_Nil TrimLeft_rune)

lemma TrimLeft_whitespaceOnly: "TrimLeft s = [] \<Longrightarrow> whitespaceOnly s"
proof (induction s rule: TrimLeft.induct)
  case (1 s)
  show ?case
  proof (cases "leadingSpace s")
    case None
    with "1.prems" have "s = []" by (simp add: TrimLeft.simps [of s])
    then show ?thesis by (simp add: whitespaceOnly.empty)
  next
    case (Some w)
    from leadingSpace_SomeD [OF Some] have w: "w \<in> set unicodeSpace"
      and s: "s = w @ drop (length w) s" by simp_all
    from "1.prems" Some have "TrimLeft (drop (length w) s) = []"
      by (simp add: TrimLeft.simps [of s])
    with "1.IH" Some have "whitespaceOnly (drop (length w) s)" by simp
    with w have "whitespaceOnly (w @ drop (length w) s)" by (rule whitespaceOnly.rune)
    with s show ?thesis by simp
  qed
qed

lemma leadingSpace_TrimLeft: "leadingSpace (TrimLeft s) = None"
proof (induction s rule: TrimLeft.induct)
  case (1 s)
  show ?case
  proof (cases "leadingSpace s")
    case None
    then show ?thesis by (simp add: TrimLeft.simps [of s])
  next
    case (Some w)
    with "1.IH" show ?thesis by (simp add: TrimLeft.simps [of s])
  qed
qed

lemma leadingSpace_prefix:
  assumes "leadingSpace u \<noteq> None"
  shows "leadingSpace (u @ v) \<noteq> None"
proof -
  from assms obtain w where "leadingSpace u = Some w" by auto
  then have w: "w \<in> set unicodeSpace" and t: "take (length w) u = w"
    by (auto simp: leadingSpace_def find_Some_iff)
  have "length (take (length w) u) \<le> length u" by simp
  with t have "length w \<le> length u" by simp
  with t have "take (length w) (u @ v) = w" by simp
  with w show ?thesis by (auto simp: leadingSpace_def find_None_iff)
qed

lemma TrimRight_empty: "TrimRight u = [] \<Longrightarrow> u = [] \<or> leadingSpace u \<noteq> None"
proof (induction u rule: TrimRight.induct)
  case (1 u)
  show ?case
  proof (cases "trailingSpace u")
    case None
    with "1.prems" show ?thesis by (simp add: TrimRight.simps [of u])
  next
    case (Some w)
    let ?u' = "take (length u - length w) u"
    from trailingSpace_SomeD [OF Some] have w: "w \<in> set unicodeSpace" and u: "u = ?u' @ w"
      by simp_all
    from "1.prems" Some have "TrimRight ?u' = []" by (simp add: TrimRight.simps [of u])
    with "1.IH" Some have "?u' = [] \<or> leadingSpace ?u' \<noteq> None" by simp
    then have "leadingSpace (?u' @ w) \<noteq> None"
    proof
      assume e: "?u' = []"
      have "leadingSpace w = Some w" using leadingSpace_append [OF w, of "[]"] by simp
      then have "leadingSpace ([] @ w) \<noteq> None" by simp
      then show ?thesis unfolding e .
    next
      assume "leadingSpace ?u' \<noteq> None"
      then show ?thesis by (rule leadingSpace_prefix)
    qed
    with u show ?thesis by simp
  qed
qed

text \<open>
  A string is trimmed to the empty string exactly when it consists of white-space
  characters.
\<close>

lemma TrimSpace_empty_iff: "TrimSpace s = [] \<longleftrightarrow> whitespaceOnly s"
proof
  assume "TrimSpace s = []"
  then have "TrimLeft s = [] \<or> leadingSpace (TrimLeft s) \<noteq> None"
    unfolding TrimSpace_def by (rule TrimRight_empty)
  then have "TrimLeft s = []" by (simp add: leadingSpace_TrimLeft)
  then show "whitespaceOnly s" by (rule TrimLeft_whitespaceOnly)
next
  assume "whitespaceOnly s"
  then show "TrimSpace s = []"
    by (simp add: TrimSpace_def whitespaceOnly_TrimLeft TrimRight_Nil)
qed

lemma whitespaceOnly_append:
  "whitespaceOnly a \<Longrightarrow> whitespaceOnly b \<Longrightarrow> whitespaceOnly (a @ b)"
proof (induction rule: whitespaceOnly.induct)
  case empty
  then show ?case by simp
next
  case (rune w s)
  then have "whitespaceOnly (s @ b)" by simp
  with rune(1) have "whitespaceOnly (w @ (s @ b))" by (rule whitespaceOnly.rune)
  then show ?case by simp
qed

lemma TrimLeft_decomp: "\<exists>l. s = l @ TrimLeft s \<and> whitespaceOnly l"
proof (induction s rule: TrimLeft.induct)
  case (1 s)
  show ?case
  proof (cases "leadingSpace s")
    case None
    then have "s = [] @ TrimLeft s \<and> whitespaceOnly []"
      by (simp add: TrimLeft.simps [of s] whitespaceOnly.empty)
    then show ?thesis by blast
  next
    case (Some w)
    from leadingSpace_SomeD [OF Some] have w: "w \<in> set unicodeSpace"
      and s: "s = w @ drop (length w) s" by simp_all
    from "1.IH" [OF Some] obtain l where l: "drop (length w) s = l @ TrimLeft (drop (length w) s)"
      "whitespaceOnly l" by blast
    have t: "TrimLeft s = TrimLeft (drop (length w) s)" using Some by (simp add: TrimLeft.simps [of s])
    have "s = (w @ l) @ TrimLeft s" using s l(1) t by (metis append.assoc)
    moreover have "whitespaceOnly (w @ l)" using w l(2) by (rule whitespaceOnly.rune)
    ultimately show ?thesis by blast
  qed
qed

lemma TrimRight_decomp: "\<exists>r. s = TrimRight s @ r \<and> whitespaceOnly r"
proof (induction s rule: TrimRight.induct)
  case (1 s)
  show ?case
  proof (cases "trailingSpace s")
    case None
    then have "s = TrimRight s @ [] \<and> whitespaceOnly []"
      by (simp add: TrimRight.simps [of s] whitespaceOnly.empty)
    then show ?thesis by blast
  next
    case (Some w)
    let ?s' = "take (length s - length w) s"
    from trailingSpace_SomeD [OF Some] have w: "w \<in> set unicodeSpace" and s: "s = ?s' @ w"
      by simp_all
    from "1.IH" [OF Some] obtain r where r: "?s' = TrimRight ?s' @ r" "whitespaceOnly r" by blast
    have t: "TrimRight s = TrimRight ?s'" using Some by (simp add: TrimRight.simps [of s])
    have "whitespaceOnly (w @ [])" using w whitespaceOnly.empty by (rule whitespaceOnly.rune)
    then have "whitespaceOnly (r @ w)" using r(2) by (simp add: whitespaceOnly_append)
    moreover have "s = TrimRight s @ (r @ w)" using s r(1) t by (metis append.assoc)
    ultimately show ?thesis by blast
  qed
qed

text \<open>\<open>TrimSpace\<close> removes white-space characters at the two ends and nothing else.\<close>

lemma TrimSpace_decomp:
  "\<exists>l r. s = l @ TrimSpace s @ r \<and> whitespaceOnly l \<and> whitespaceOnly r"
proof -
  from TrimLeft_decomp [of s] obtain l where l: "s = l @ TrimLeft s" "whitespaceOnly l" by blast
  from TrimRight_decomp [of "TrimLeft s"] obtain r where
    r: "TrimLeft s = TrimRight (TrimLeft s) @ r" "whitespaceOnly r" by blast
  from l(1) r(1) have "s = l @ TrimSpace s @ r" by (simp add: TrimSpace_def)
  with l(2) r(2) show ?thesis by blast
qed

lemma toLowerByte_idem: "toLowerByte (toLowerByte c) = toLowerByte c"
  by (simp add: toLowerByte_def less_eq_char_def)

lemma ToLower_ascii: "list_all isASCII s \<Longrightarrow> ToLower lower s = map toLowerByte s"
  by (simp add: ToLower_def)

text \<open>The unfolding rules with which a concrete call is evaluated.\<close>

lemmas go_eval =
  TrimSpace_def TrimLeft.simps TrimRight.simps leadingSpace_def trailingSpace_def
  unicodeSpace_def ToLower_def isASCII_def toLowerByte_def char_of_def bit_Suc_0_iff
  HasSuffix_def Atoi_def isDigit_def digitsValue_def ParseBool_def wrap64_def
  parsePositiveInt_def sanitizeTags_def

section \<open>Tags\<close>

lemma normalizeTag_empty: "normalizeTag lower tag = [] \<longleftrightarrow> ToLower lower (TrimSpace tag) = []"
  by (auto simp: normalizeTag_def Let_def)

lemma length_normalizeTag: "length (normalizeTag lower tag) \<le> 32"
  by (simp add: normalizeTag_def Let_def)

lemma set_dedup_first: "set (dedup_first xs) = set xs"
  by (induction xs rule: dedup_first.induct) auto

lemma distinct_dedup_first: "distinct (dedup_first xs)"
  by (induction xs rule: dedup_first.induct) (auto simp: set_dedup_first)

text \<open>
  The loop computes what the specification describes: with \<open>uniq\<close> the set of \<open>clean\<close>,
  it appends the normalized, non-empty tags that are new, each at its first occurrence.
\<close>

lemma sanitizeTags_loop_eq:
  "sanitizeTags_loop lower tags (set clean) clean =
     clean @ dedup_first (filter (\<lambda>t. t \<notin> set clean)
               (filter (\<lambda>t. t \<noteq> []) (map (normalizeTag lower) tags)))"
proof (induction tags arbitrary: clean)
  case Nil
  then show ?case by simp
next
  case (Cons tag tags)
  show ?case
  proof (cases "ToLower lower (TrimSpace tag) = []")
    case True
    then have "normalizeTag lower tag = []" by (simp add: normalizeTag_empty)
    with True Cons.IH [of clean] show ?thesis by simp
  next
    case False
    then have ne: "normalizeTag lower tag \<noteq> []" by (simp add: normalizeTag_empty)
    have nt: "(if 32 < length (ToLower lower (TrimSpace tag)) then take 32 (ToLower lower (TrimSpace tag))
               else ToLower lower (TrimSpace tag)) = normalizeTag lower tag"
      by (simp add: normalizeTag_def Let_def)
    show ?thesis
    proof (cases "normalizeTag lower tag \<in> set clean")
      case True
      with False ne nt Cons.IH [of clean] show ?thesis by (simp add: Let_def)
    next
      case notin: False
      have "sanitizeTags_loop lower (tag # tags) (set clean) clean =
              sanitizeTags_loop lower tags (set (clean @ [normalizeTag lower tag])) (clean @ [normalizeTag lower tag])"
        using False notin nt by (simp add: Let_def)
      also have "\<dots> = (clean @ [normalizeTag lower tag]) @
          dedup_first (filter (\<lambda>t. t \<notin> set (clean @ [normalizeTag lower tag]))
             (filter (\<lambda>t. t \<noteq> []) (map (normalizeTag lower) tags)))"
        by (rule Cons.IH)
      also have "\<dots> = clean @ dedup_first (filter (\<lambda>t. t \<notin> set clean)
             (filter (\<lambda>t. t \<noteq> []) (map (normalizeTag lower) (tag # tags))))"
        using ne notin by (simp add: conj_commute conj_left_commute cong: filter_cong)
      finally show ?thesis .
    qed
  qed
qed

lemma sanitizeTags_eq:
  "sanitizeTags lower tags =
     dedup_first (filter (\<lambda>t. t \<noteq> []) (map (normalizeTag lower) tags))"
  using sanitizeTags_loop_eq [of lower tags "[]"] by (cases tags) (simp_all add: sanitizeTags_def)

text \<open>
  What holds of every stored tag list: no duplicates, no empty string, at most 32 bytes
  in an element; by \<open>sanitizeTags_eq\<close> every element is the first 32 bytes of a
  lowered, trimmed tag of the request.
\<close>

lemma sanitizeTags_sound:
  "distinct (sanitizeTags lower tags) \<and> [] \<notin> set (sanitizeTags lower tags)
   \<and> (\<forall>t \<in> set (sanitizeTags lower tags). length t \<le> 32)"
  by (auto simp: sanitizeTags_eq distinct_dedup_first set_dedup_first length_normalizeTag)

lemma sanitizeTags_example: "sanitizeTags lower [''A'', ''a'', '' a ''] = [''a'']"
  by (simp add: go_eval)

text \<open>
  Claim C1. Every stored tag is said to be trimmed. \<open>sanitizeTags\<close> trims first and
  truncates to 32 bytes afterwards, so a tag whose 32nd byte is a space is stored with
  that space at its end: creating a note with the 33-byte tag below stores a tag that
  \<open>TrimSpace\<close> would still shorten.
\<close>

theorem create_stores_untrimmed_tag:
  "snd (handleCreateNote lower True 0 1
          (Some \<lparr>req_title = ''t'', req_content = [],
                 req_tags = [''aaaaaaaaaaaaaaaaaaaaaaaaaaaaaaa b''], req_is_favorite = False\<rparr>)
          \<lparr>notes_tbl = [], sessions_tbl = []\<rparr>)
     = \<lparr>notes_tbl = [\<lparr>ID = 1, Title = ''t'', Content = [],
                       Tags = [''aaaaaaaaaaaaaaaaaaaaaaaaaaaaaaa ''], IsFavorite = False,
                       CreatedAt = 0, UpdatedAt = 0\<rparr>],
         sessions_tbl = []\<rparr>
   \<and> TrimSpace ''aaaaaaaaaaaaaaaaaaaaaaaaaaaaaaa '' \<noteq> ''aaaaaaaaaaaaaaaaaaaaaaaaaaaaaaa ''"
  by (simp add: handleCreateNote_def writeJSON_def Let_def go_eval)

theorem create_stores_untrimmed_tag_witness:
  "Tags (last (notes_tbl (snd (handleCreateNote (\<lambda>s. s) True 0 1
          (Some \<lparr>req_title = ''t'', req_content = [],
                 req_tags = [''aaaaaaaaaaaaaaaaaaaaaaaaaaaaaaa b''], req_is_favorite = False\<rparr>)
          \<lparr>notes_tbl = [], sessions_tbl = []\<rparr>))))
     = [''aaaaaaaaaaaaaaaaaaaaaaaaaaaaaaa '']"
  using create_stores_untrimmed_tag [of "\<lambda>s. s"] by simp

section \<open>Listing notes\<close>

lemma ParseBool_Nil: "ParseBool [] = None"
  by (simp add: ParseBool_def)

lemma status_writeError: "status (writeError st msg) = st"
  by (simp add: writeError_def writeJSON_def)

lemma list_favorite: "(if fr \<noteq> [] then ParseBool fr else None) = ParseBool fr"
  by (simp add: ParseBool_Nil)

lemma handleListNotes_unfold:
  "handleListNotes f q d =
     (if TrimSpace (Get q ''favorite'') \<noteq> [] \<and> ParseBool (TrimSpace (Get q ''favorite'')) = None
      then writeError 400 ''favorite must be true or false''
      else if count_fails f then writeError 500 ''database error''
      else if query_fails f \<or> list_offset (effective_page q) (effective_limit q) < 0
      then writeError 500 ''database error''
      else if list_page q d \<noteq> [] \<and> scan_fails f then writeError 500 ''database error''
      else if rows_fails f then writeError 500 ''database error''
      else writeJSON 200 (ListBody (list_page q d) (effective_page q) (effective_limit q)
             (int (length (filter (list_predicate q) (notes_tbl d))))))"
  unfolding handleListNotes_def Let_def list_favorite effective_page_def effective_limit_def
    list_predicate_def list_page_def Let_def
  by (rule refl)

lemma handleListNotes_ok:
  assumes "status (handleListNotes f q d) = 200"
  shows "handleListNotes f q d =
           writeJSON 200 (ListBody (list_page q d) (effective_page q) (effective_limit q)
             (int (length (filter (list_predicate q) (notes_tbl d)))))"
  using assms unfolding handleListNotes_unfold
  by (auto simp add: status_writeError split: if_splits)

lemma handleListNotes_run:
  assumes "\<not> count_fails f" "\<not> query_fails f" "\<not> scan_fails f" "\<not> rows_fails f"
    and "TrimSpace (Get q ''favorite'') = [] \<or> ParseBool (TrimSpace (Get q ''favorite'')) \<noteq> None"
    and "0 \<le> list_offset (effective_page q) (effective_limit q)"
  shows "status (handleListNotes f q d) = 200"
  using assms unfolding handleListNotes_unfold
  by (auto simp add: writeJSON_def)

lemma parsePositiveInt_pos: "1 \<le> fallback \<Longrightarrow> 1 \<le> parsePositiveInt raw fallback"
  by (simp add: parsePositiveInt_def split: option.splits)

lemma parsePositiveInt_fallback:
  "raw = [] \<or> Atoi raw = None \<or> (\<exists>v. Atoi raw = Some v \<and> v \<le> 0) \<Longrightarrow> parsePositiveInt raw fallback = fallback"
  by (auto simp add: parsePositiveInt_def)

lemma parsePositiveInt_value:
  "raw \<noteq> [] \<Longrightarrow> Atoi raw = Some v \<Longrightarrow> 0 < v \<Longrightarrow> parsePositiveInt raw fallback = v"
  by (simp add: parsePositiveInt_def)

lemma effective_page_pos: "1 \<le> effective_page q"
  by (simp add: effective_page_def parsePositiveInt_pos)

lemma effective_limit_range: "1 \<le> effective_limit q \<and> effective_limit q \<le> 100"
  using parsePositiveInt_pos [of 30 "Get q ''limit''"]
  by (simp add: effective_limit_def Let_def)

lemma effective_limit_default:
  "Get q ''limit'' = [] \<or> (\<exists>v. Atoi (Get q ''limit'') = Some v \<and> v \<le> 0) \<Longrightarrow> effective_limit q = 30"
  by (auto simp add: effective_limit_def Let_def parsePositiveInt_def)

lemma list_offset_exact:
  "0 \<le> (page - 1) * limit \<Longrightarrow> (page - 1) * limit < 2 ^ 63 \<Longrightarrow> list_offset page limit = (page - 1) * limit"
  by (simp add: list_offset_def wrap64_def)


text \<open>
  Claim C7. The effective page is at least 1, the effective limit is 30 by default and
  between 1 and 100 (lemmas \<open>effective_page_pos\<close>, \<open>effective_limit_range\<close>,
  \<open>effective_limit_default\<close>), and the offset is \<open>(page - 1) * limit\<close> as long as the
  product fits Go's 64-bit \<open>int\<close> (\<open>list_offset_exact\<close>). The page is not bounded from
  above, so the product can overflow: for page 4611686018427387905 and limit 4 it is
  \<open>2 ^ 64\<close>, the offset wraps to 0 and the first rows are returned.
\<close>

theorem list_offset_wraps_around:
  "handleListNotes \<lparr>count_fails = False, query_fails = False, scan_fails = False, rows_fails = False\<rparr>
     [''page'' \<mapsto> ''4611686018427387905'', ''limit'' \<mapsto> ''4'']
     \<lparr>notes_tbl = [\<lparr>ID = 1, Title = ''t'', Content = [], Tags = [], IsFavorite = False,
                     CreatedAt = 0, UpdatedAt = 0\<rparr>], sessions_tbl = []\<rparr>
   = writeJSON 200 (ListBody [\<lparr>ID = 1, Title = ''t'', Content = [], Tags = [], IsFavorite = False,
                     CreatedAt = 0, UpdatedAt = 0\<rparr>] 4611686018427387905 4 1)
   \<and> list_offset 4611686018427387905 4 = 0
   \<and> (4611686018427387905 - 1) * 4 = (18446744073709551616 :: int)"
  by (simp add: handleListNotes_unfold Get_def list_offset_def note_matches_def
      effective_page_def effective_limit_def list_page_def list_predicate_def
      order_by_updated_desc_def go_eval)

theorem list_offset_wraps_around_witness:
  "status (handleListNotes \<lparr>count_fails = False, query_fails = False, scan_fails = False, rows_fails = False\<rparr>
     [''page'' \<mapsto> ''4611686018427387905'', ''limit'' \<mapsto> ''4'']
     \<lparr>notes_tbl = [\<lparr>ID = 1, Title = ''t'', Content = [], Tags = [], IsFavorite = False,
                     CreatedAt = 0, UpdatedAt = 0\<rparr>], sessions_tbl = []\<rparr>) = 200"
  using list_offset_wraps_around by (simp add: writeJSON_def)

section \<open>Creating and updating notes\<close>

lemma handleCreateNote_unfold:
  "handleCreateNote lower db_ok now new_id body_json d =
     (case body_json of
        None \<Rightarrow> (writeError 400 ''invalid json body'', d)
      | Some req \<Rightarrow>
          if \<not> db_ok \<or> list_ex (\<lambda>n. ID n = new_id) (notes_tbl d)
          then (writeError 500 ''database error'', d)
          else (writeJSON 201 (NoteBody (created_row lower now new_id req)),
                d\<lparr>notes_tbl := notes_tbl d @ [created_row lower now new_id req]\<rparr>))"
  unfolding handleCreateNote_def Let_def created_row_def stored_title_def
  by (rule refl)

lemma handleUpdateNote_unfold:
  "handleUpdateNote lower parse db_ok now raw body_json d =
     (case parseUUIDParam parse ''id'' raw of
        Inl msg \<Rightarrow> (writeError 400 msg, d)
      | Inr noteID \<Rightarrow>
          (case body_json of
             None \<Rightarrow> (writeError 400 ''invalid json body'', d)
           | Some req \<Rightarrow>
               if \<not> db_ok then (writeError 500 ''database error'', d)
               else case find (\<lambda>n. ID n = noteID) (notes_tbl d) of
                      None \<Rightarrow> (writeError 404 ''note not found'', d)
                    | Some n \<Rightarrow>
                        (writeJSON 200 (NoteBody (updated_row lower now req n)),
                         d\<lparr>notes_tbl := map (\<lambda>m. if ID m = noteID then updated_row lower now req m else m)
                                          (notes_tbl d)\<rparr>)))"
  unfolding handleUpdateNote_def Let_def updated_row_def stored_title_def
  by (rule refl)

lemma parseUUIDParam_Inr:
  "parseUUIDParam parse name raw = Inr i \<longleftrightarrow> raw \<noteq> [] \<and> parse raw = Some i"
  by (simp add: parseUUIDParam_def split: option.splits)

lemma handleCreateNote_ok:
  assumes "handleCreateNote lower db_ok now new_id body_json d = (resp, d')" "status resp = 201"
  shows "\<exists>req. body_json = Some req \<and> db_ok \<and> new_id \<notin> ID ` set (notes_tbl d)
           \<and> resp = writeJSON 201 (NoteBody (created_row lower now new_id req))
           \<and> d' = d\<lparr>notes_tbl := notes_tbl d @ [created_row lower now new_id req]\<rparr>"
  using assms unfolding handleCreateNote_unfold
  by (auto simp add: status_writeError list_ex_iff split: option.splits if_splits)

lemma handleUpdateNote_ok:
  assumes "handleUpdateNote lower parse db_ok now raw body_json d = (resp, d')" "status resp = 200"
  shows "\<exists>req i n. body_json = Some req \<and> db_ok \<and> raw \<noteq> [] \<and> parse raw = Some i
           \<and> find (\<lambda>n. ID n = i) (notes_tbl d) = Some n
           \<and> resp = writeJSON 200 (NoteBody (updated_row lower now req n))
           \<and> d' = d\<lparr>notes_tbl := map (\<lambda>m. if ID m = i then updated_row lower now req m else m)
                                     (notes_tbl d)\<rparr>"
  using assms unfolding handleUpdateNote_unfold
  by (auto simp add: status_writeError parseUUIDParam_Inr split: option.splits if_splits sum.splits)

lemma stored_title_blank:
  "stored_title t = (if whitespaceOnly t then ''Untitled'' else TrimSpace t)"
  by (simp add: stored_title_def TrimSpace_empty_iff)

text \<open>
  Claim C6. A create or an update that succeeds stores the literal \<open>Untitled\<close> for a
  title that is empty or consists of white-space characters (\<open>whitespaceOnly\<close>, the
  characters of \<open>unicode.IsSpace\<close>), and the title without its surrounding white space
  otherwise (\<open>TrimSpace_decomp\<close>); it stores the content as submitted. For an update
  this holds of every row with the id of the request.
\<close>

theorem title_normalized_content_verbatim:
  "(handleCreateNote lower db_ok now new_id (Some req) d = (resp, d') \<and> status resp = 201 \<longrightarrow>
      (\<exists>n. body resp = NoteBody n \<and> notes_tbl d' = notes_tbl d @ [n]
          \<and> Title n = (if whitespaceOnly (req_title req) then ''Untitled''
                        else TrimSpace (req_title req))
          \<and> Content n = req_content req))
   \<and> (handleUpdateNote lower parse db_ok2 now2 raw (Some req2) d2 = (resp2, d2') \<and> status resp2 = 200 \<longrightarrow>
      (\<exists>n i. body resp2 = NoteBody n \<and> parse raw = Some i \<and> ID n = i \<and> n \<in> set (notes_tbl d2')
          \<and> (\<forall>m \<in> set (notes_tbl d2'). ID m = i \<longrightarrow>
                Title m = (if whitespaceOnly (req_title req2) then ''Untitled''
                           else TrimSpace (req_title req2))
                \<and> Content m = req_content req2)))"
proof (intro conjI impI)
  assume a: "handleCreateNote lower db_ok now new_id (Some req) d = (resp, d') \<and> status resp = 201"
  from handleCreateNote_ok [of lower db_ok now new_id "Some req" d resp d'] a
  have r: "resp = writeJSON 201 (NoteBody (created_row lower now new_id req))"
    and d: "d' = d\<lparr>notes_tbl := notes_tbl d @ [created_row lower now new_id req]\<rparr>" by auto
  show "\<exists>n. body resp = NoteBody n \<and> notes_tbl d' = notes_tbl d @ [n]
          \<and> Title n = (if whitespaceOnly (req_title req) then ''Untitled''
                        else TrimSpace (req_title req))
          \<and> Content n = req_content req"
    using r d by (simp add: writeJSON_def created_row_def stored_title_blank)
next
  assume a: "handleUpdateNote lower parse db_ok2 now2 raw (Some req2) d2 = (resp2, d2') \<and> status resp2 = 200"
  from handleUpdateNote_ok [of lower parse db_ok2 now2 raw "Some req2" d2 resp2 d2'] a
  obtain i n where p: "parse raw = Some i"
    and f: "find (\<lambda>n. ID n = i) (notes_tbl d2) = Some n"
    and r: "resp2 = writeJSON 200 (NoteBody (updated_row lower now2 req2 n))"
    and d: "d2' = d2\<lparr>notes_tbl := map (\<lambda>m. if ID m = i then updated_row lower now2 req2 m else m)
                                     (notes_tbl d2)\<rparr>" by auto
  from f have n: "n \<in> set (notes_tbl d2)" "ID n = i"
    by (auto simp: find_Some_iff)
  have "updated_row lower now2 req2 n \<in> set (notes_tbl d2')"
    using n d by (auto simp: image_iff intro!: bexI [of _ n])
  moreover have "ID (updated_row lower now2 req2 n) = i" using n by (simp add: updated_row_def)
  moreover have "Title m = (if whitespaceOnly (req_title req2) then ''Untitled''
                    else TrimSpace (req_title req2))
         \<and> Content m = req_content req2" if m: "m \<in> set (notes_tbl d2')" "ID m = i" for m
  proof -
    from m(1) d have "m \<in> (\<lambda>m. if ID m = i then updated_row lower now2 req2 m else m) ` set (notes_tbl d2)"
      by simp
    then obtain m0 where m0: "m = (if ID m0 = i then updated_row lower now2 req2 m0 else m0)"
      by (rule imageE)
    show ?thesis
    proof (cases "ID m0 = i")
      case True
      with m0 have "m = updated_row lower now2 req2 m0" by simp
      then show ?thesis by (simp add: updated_row_def stored_title_blank)
    next
      case False
      with m0 m(2) show ?thesis by simp
    qed
  qed
  ultimately show "\<exists>n i. body resp2 = NoteBody n \<and> parse raw = Some i \<and> ID n = i \<and> n \<in> set (notes_tbl d2')
          \<and> (\<forall>m \<in> set (notes_tbl d2'). ID m = i \<longrightarrow>
                Title m = (if whitespaceOnly (req_title req2) then ''Untitled''
                           else TrimSpace (req_title req2))
                \<and> Content m = req_content req2)"
    using p r by (simp add: writeJSON_def)
qed

theorem title_normalized_content_verbatim_witness:
  "(\<exists>n. body (fst (handleCreateNote (\<lambda>s. s) True 7 1
              (Some \<lparr>req_title = [CHR 0xC2, CHR 0xA0, CHR 0xE2, CHR 0x80, CHR 0x83], req_content = '' x '', req_tags = [], req_is_favorite = False\<rparr>)
              \<lparr>notes_tbl = [], sessions_tbl = []\<rparr>)) = NoteBody n
        \<and> Title n = ''Untitled'' \<and> Content n = '' x '')
   \<and> (\<exists>n. body (fst (handleUpdateNote (\<lambda>s. s) (\<lambda>s. if s = ''one'' then Some 1 else None) True 9 ''one''
              (Some \<lparr>req_title = '' Hi '', req_content = '' y '', req_tags = [], req_is_favorite = True\<rparr>)
              \<lparr>notes_tbl = [\<lparr>ID = 1, Title = ''old'', Content = ''old'', Tags = [],
                              IsFavorite = False, CreatedAt = 3, UpdatedAt = 3\<rparr>],
                 sessions_tbl = []\<rparr>)) = NoteBody n
        \<and> Title n = ''Hi'' \<and> Content n = '' y '')"
proof -
  let ?rA = "\<lparr>req_title = [CHR 0xC2, CHR 0xA0, CHR 0xE2, CHR 0x80, CHR 0x83], req_content = '' x '', req_tags = [], req_is_favorite = False\<rparr>"
  let ?rB = "\<lparr>req_title = '' Hi '', req_content = '' y '', req_tags = [], req_is_favorite = True\<rparr>"
  let ?parse = "\<lambda>s. if s = ''one'' then Some (1::nat) else None"
  let ?d0 = "\<lparr>notes_tbl = [], sessions_tbl = []\<rparr>"
  let ?d1 = "\<lparr>notes_tbl = [\<lparr>ID = 1, Title = ''old'', Content = ''old'', Tags = [],
                              IsFavorite = False, CreatedAt = 3, UpdatedAt = 3\<rparr>],
                 sessions_tbl = []\<rparr>"
  let ?c = "handleCreateNote (\<lambda>s. s) True 7 1 (Some ?rA) ?d0"
  let ?u = "handleUpdateNote (\<lambda>s. s) ?parse True 9 ''one'' (Some ?rB) ?d1"
  have c: "?c = (fst ?c, snd ?c) \<and> status (fst ?c) = 201"
    by (simp add: handleCreateNote_unfold writeJSON_def)
  have u: "?u = (fst ?u, snd ?u) \<and> status (fst ?u) = 200"
    by (simp add: handleUpdateNote_unfold parseUUIDParam_def writeJSON_def)
  have sp: "whitespaceOnly [CHR 0xC2, CHR 0xA0, CHR 0xE2, CHR 0x80, CHR 0x83] \<and> \<not> whitespaceOnly '' Hi ''
            \<and> TrimSpace '' Hi '' = ''Hi''"
    by (simp add: TrimSpace_empty_iff [symmetric] go_eval)
  from title_normalized_content_verbatim
         [of "\<lambda>s. s" True 7 1 ?rA ?d0 "fst ?c" "snd ?c" ?parse True 9 "''one''" ?rB ?d1
             "fst ?u" "snd ?u"]
       c u sp
  show ?thesis by auto
qed

section \<open>Sessions\<close>

lemma session_exists_iff:
  "session_exists now tok d \<longleftrightarrow> (\<exists>s \<in> set (sessions_tbl d). token s = tok \<and> now < expires_at s)"
  by (simp add: session_exists_def list_ex_iff)

lemma requireSession_unfold:
  "requireSession db_ok now (Some v) d =
     (if TrimSpace v = [] then Inl (writeError 401 ''unauthorized'')
      else if \<not> db_ok then Inl (writeError 500 ''database error'')
      else if \<not> session_exists now (TrimSpace v) d then Inl (writeError 401 ''unauthorized'')
      else Inr (TrimSpace v))"
  by (simp add: requireSession_def Let_def)

text \<open>
  Claim C4. A token for which no session row exists and a token whose rows have all
  expired (\<open>expires_at\<close> not after \<open>NOW()\<close>) are both invalid, and the session check
  answers both requests with the same response, 401 with the error \<open>unauthorized\<close>
  when the query runs, and the same response in any case.
\<close>

theorem missing_and_expired_indistinguishable:
  assumes "\<forall>s \<in> set (sessions_tbl d1). token s \<noteq> TrimSpace v"
    and "\<forall>s \<in> set (sessions_tbl d2). token s = TrimSpace v \<longrightarrow> expires_at s \<le> now"
  shows "\<not> session_exists now (TrimSpace v) d1 \<and> \<not> session_exists now (TrimSpace v) d2
    \<and> requireSession db_ok now (Some v) d1 = requireSession db_ok now (Some v) d2
    \<and> (db_ok \<longrightarrow> requireSession db_ok now (Some v) d1 = Inl (writeError 401 ''unauthorized''))"
proof -
  have 1: "\<not> session_exists now (TrimSpace v) d1"
    using assms(1) by (auto simp: session_exists_iff)
  have 2: "\<not> session_exists now (TrimSpace v) d2"
    using assms(2) by (fastforce simp: session_exists_iff)
  show ?thesis using 1 2 by (simp add: requireSession_unfold)
qed

theorem missing_and_expired_indistinguishable_witness:
  "requireSession True 5 (Some ''tok'') \<lparr>notes_tbl = [], sessions_tbl = []\<rparr>
     = requireSession True 5 (Some ''tok'')
         \<lparr>notes_tbl = [], sessions_tbl = [\<lparr>token = ''tok'', expires_at = 5\<rparr>]\<rparr>
   \<and> requireSession True 5 (Some ''tok'') \<lparr>notes_tbl = [], sessions_tbl = []\<rparr>
     = Inl \<lparr>status = 401, body = ErrorBody ''unauthorized'', set_cookie = KeepCookie\<rparr>"
proof -
  let ?d1 = "\<lparr>notes_tbl = [], sessions_tbl = []\<rparr>"
  let ?d2 = "\<lparr>notes_tbl = [], sessions_tbl = [\<lparr>token = ''tok'', expires_at = 5\<rparr>]\<rparr>"
  have h1: "\<forall>s \<in> set (sessions_tbl ?d1). token s \<noteq> TrimSpace ''tok''" by simp
  have h2: "\<forall>s \<in> set (sessions_tbl ?d2). token s = TrimSpace ''tok'' \<longrightarrow> expires_at s \<le> 5"
    by simp
  from missing_and_expired_indistinguishable [OF h1 h2, of True]
  have "requireSession True 5 (Some ''tok'') ?d1 = requireSession True 5 (Some ''tok'') ?d2"
    and "requireSession True 5 (Some ''tok'') ?d1 = Inl (writeError 401 ''unauthorized'')"
    by blast+
  then show ?thesis by (simp add: writeError_def writeJSON_def)
qed

lemma handleLogout_response:
  "fst (handleLogout db_ok cookie d) = clearSessionCookie (writeJSON 200 OkBody)"
  by (simp add: handleLogout_def Let_def)

lemma handleLogout_sessions:
  "sessions_tbl (snd (handleLogout db_ok (Some v) d)) =
     (if TrimSpace v \<noteq> [] \<and> db_ok then filter (\<lambda>s. token s \<noteq> v) (sessions_tbl d)
      else sessions_tbl d)"
  by (simp add: handleLogout_def Let_def)

text \<open>
  Claim C9. The session check looks up the trimmed cookie value, logout deletes the rows
  whose token is the untrimmed value. For a cookie value \<open>v\<close> that differs from its
  trimmed form, when the trimmed form is the (non-empty) token of an unexpired session:
  the check passes, logout answers 200 and clears the cookie, the rows with that token
  are all still in the table, and the check passes again afterwards.
\<close>

theorem logout_with_padded_cookie_keeps_session:
  assumes "TrimSpace v \<noteq> v" and "TrimSpace v \<noteq> []" and "session_exists now (TrimSpace v) d"
  shows "requireSession True now (Some v) d = Inr (TrimSpace v)
    \<and> fst (handleLogout db_ok (Some v) d) = \<lparr>status = 200, body = OkBody, set_cookie = ClearCookie\<rparr>
    \<and> filter (\<lambda>s. token s = TrimSpace v) (sessions_tbl (snd (handleLogout db_ok (Some v) d)))
        = filter (\<lambda>s. token s = TrimSpace v) (sessions_tbl d)
    \<and> session_exists now (TrimSpace v) (snd (handleLogout db_ok (Some v) d))
    \<and> requireSession True now (Some v) (snd (handleLogout db_ok (Some v) d)) = Inr (TrimSpace v)"
proof -
  let ?d' = "snd (handleLogout db_ok (Some v) d)"
  have keep: "filter (\<lambda>s. token s = TrimSpace v) (sessions_tbl ?d')
                = filter (\<lambda>s. token s = TrimSpace v) (sessions_tbl d)"
    using assms(1) by (auto simp: handleLogout_sessions intro: filter_cong)
  have ex: "session_exists now (TrimSpace v) ?d'"
  proof -
    from assms(3) obtain s where s: "s \<in> set (sessions_tbl d)" "token s = TrimSpace v"
      "now < expires_at s" by (auto simp: session_exists_iff)
    then have "s \<in> set (filter (\<lambda>s. token s = TrimSpace v) (sessions_tbl d))" by simp
    then have "s \<in> set (filter (\<lambda>s. token s = TrimSpace v) (sessions_tbl ?d'))"
      by (simp only: keep)
    then have "s \<in> set (sessions_tbl ?d')" by simp
    with s show ?thesis unfolding session_exists_iff by blast
  qed
  show ?thesis
    using assms(2,3) keep ex
    by (simp add: requireSession_unfold handleLogout_response clearSessionCookie_def writeJSON_def)
qed

theorem logout_with_padded_cookie_keeps_session_witness:
  "requireSession True 5 (Some '' tok'')
       \<lparr>notes_tbl = [], sessions_tbl = [\<lparr>token = ''tok'', expires_at = 10\<rparr>]\<rparr> = Inr ''tok''
   \<and> snd (handleLogout True (Some '' tok'')
       \<lparr>notes_tbl = [], sessions_tbl = [\<lparr>token = ''tok'', expires_at = 10\<rparr>]\<rparr>)
     = \<lparr>notes_tbl = [], sessions_tbl = [\<lparr>token = ''tok'', expires_at = 10\<rparr>]\<rparr>
   \<and> session_exists 5 ''tok'' (snd (handleLogout True (Some '' tok'')
       \<lparr>notes_tbl = [], sessions_tbl = [\<lparr>token = ''tok'', expires_at = 10\<rparr>]\<rparr>))"
proof -
  let ?d = "\<lparr>notes_tbl = [], sessions_tbl = [\<lparr>token = ''tok'', expires_at = 10\<rparr>]\<rparr>"
  have t: "TrimSpace '' tok'' = ''tok''" by (simp add: go_eval)
  have h1: "TrimSpace '' tok'' \<noteq> '' tok''" by (simp add: t)
  have h2: "TrimSpace '' tok'' \<noteq> []" by (simp add: t)
  have h3: "session_exists 5 (TrimSpace '' tok'') ?d" by (simp add: t session_exists_def)
  have l: "snd (handleLogout True (Some '' tok'') ?d) = ?d"
    by (simp add: handleLogout_def t)
  from logout_with_padded_cookie_keeps_session [OF h1 h2 h3, of True]
  show ?thesis by (simp add: t l)
qed

section \<open>The total and the page of a list call\<close>

lemma handleListNotes_body:
  assumes "status (handleListNotes f q d) = 200"
  shows "body (handleListNotes f q d) =
           ListBody (list_page q d) (effective_page q) (effective_limit q)
             (int (length (filter (list_predicate q) (notes_tbl d))))"
  by (simp add: handleListNotes_ok [OF assms] writeJSON_def)

lemma set_order_by_updated_desc: "set (order_by_updated_desc ns) = set ns"
  by (simp add: order_by_updated_desc_def)

lemma list_page_subset:
  "n \<in> set (list_page q d) \<Longrightarrow> n \<in> set (notes_tbl d) \<and> list_predicate q n"
proof -
  assume "n \<in> set (list_page q d)"
  then have "n \<in> set (order_by_updated_desc (filter (list_predicate q) (notes_tbl d)))"
    unfolding list_page_def by (blast dest: in_set_takeD in_set_dropD)
  then show ?thesis by (simp add: set_order_by_updated_desc)
qed

lemma list_predicate_cong:
  assumes "Get q' ''query'' = Get q ''query''" "Get q' ''tag'' = Get q ''tag''"
    "Get q' ''favorite'' = Get q ''favorite''"
  shows "list_predicate q' = list_predicate q"
  using assms by (simp add: list_predicate_def)

text \<open>
  Claim C3. A list call that answers 200 returns as total the number of notes that
  satisfy the filter of its query, tag and favorite parameters, and as items the slice,
  at the offset and of the length of the call, of those same notes in the order of the
  query; so every item satisfies the filter. The total does not depend on page and
  limit: any other successful call with the same three filter parameters returns it.
\<close>

theorem list_total_counts_filter:
  assumes "status (handleListNotes f q d) = 200"
  shows "\<exists>items page limit total.
      body (handleListNotes f q d) = ListBody items page limit total
    \<and> total = int (length (filter (list_predicate q) (notes_tbl d)))
    \<and> items = take (nat limit) (drop (nat (list_offset page limit))
                 (order_by_updated_desc (filter (list_predicate q) (notes_tbl d))))
    \<and> (\<forall>n \<in> set items. n \<in> set (notes_tbl d) \<and> list_predicate q n)
    \<and> (\<forall>f' q'. Get q' ''query'' = Get q ''query'' \<and> Get q' ''tag'' = Get q ''tag''
           \<and> Get q' ''favorite'' = Get q ''favorite'' \<and> status (handleListNotes f' q' d) = 200
         \<longrightarrow> (\<exists>items' page' limit'.
                body (handleListNotes f' q' d) = ListBody items' page' limit' total))"
proof -
  let ?total = "int (length (filter (list_predicate q) (notes_tbl d)))"
  have b: "body (handleListNotes f q d) =
             ListBody (list_page q d) (effective_page q) (effective_limit q) ?total"
    by (rule handleListNotes_body [OF assms])
  have i: "list_page q d = take (nat (effective_limit q))
             (drop (nat (list_offset (effective_page q) (effective_limit q)))
                (order_by_updated_desc (filter (list_predicate q) (notes_tbl d))))"
    by (simp add: list_page_def)
  have s: "\<forall>n \<in> set (list_page q d). n \<in> set (notes_tbl d) \<and> list_predicate q n"
    using list_page_subset by blast
  have o: "\<exists>items' page' limit'. body (handleListNotes f' q' d) = ListBody items' page' limit' ?total"
    if "Get q' ''query'' = Get q ''query'' \<and> Get q' ''tag'' = Get q ''tag''
           \<and> Get q' ''favorite'' = Get q ''favorite'' \<and> status (handleListNotes f' q' d) = 200"
    for f' q'
  proof -
    from that have "list_predicate q' = list_predicate q" by (intro list_predicate_cong) simp_all
    moreover from that have "status (handleListNotes f' q' d) = 200" by simp
    ultimately show ?thesis using handleListNotes_body [of f' q' d] by simp
  qed
  show ?thesis using b i s o by blast
qed

theorem list_total_counts_filter_witness:
  "body (handleListNotes \<lparr>count_fails = False, query_fails = False, scan_fails = False, rows_fails = False\<rparr>
      [''tag'' \<mapsto> ''x'', ''page'' \<mapsto> ''2'', ''limit'' \<mapsto> ''1'']
      \<lparr>notes_tbl = [\<lparr>ID = 1, Title = ''a'', Content = [], Tags = [''x''], IsFavorite = False, CreatedAt = 1, UpdatedAt = 1\<rparr>,
                     \<lparr>ID = 2, Title = ''b'', Content = [], Tags = [''y''], IsFavorite = False, CreatedAt = 2, UpdatedAt = 2\<rparr>,
                     \<lparr>ID = 3, Title = ''c'', Content = [], Tags = [''x''], IsFavorite = False, CreatedAt = 3, UpdatedAt = 3\<rparr>],
        sessions_tbl = []\<rparr>)
   = ListBody [\<lparr>ID = 1, Title = ''a'', Content = [], Tags = [''x''], IsFavorite = False, CreatedAt = 1, UpdatedAt = 1\<rparr>] 2 1 2"
proof -
  let ?f = "\<lparr>count_fails = False, query_fails = False, scan_fails = False, rows_fails = False\<rparr>"
  let ?q = "[''tag'' \<mapsto> ''x'', ''page'' \<mapsto> ''2'', ''limit'' \<mapsto> ''1'']"
  let ?d = "\<lparr>notes_tbl = [\<lparr>ID = 1, Title = ''a'', Content = [], Tags = [''x''], IsFavorite = False, CreatedAt = 1, UpdatedAt = 1\<rparr>,
                     \<lparr>ID = 2, Title = ''b'', Content = [], Tags = [''y''], IsFavorite = False, CreatedAt = 2, UpdatedAt = 2\<rparr>,
                     \<lparr>ID = 3, Title = ''c'', Content = [], Tags = [''x''], IsFavorite = False, CreatedAt = 3, UpdatedAt = 3\<rparr>],
        sessions_tbl = []\<rparr>"
  have p: "effective_page ?q = 2" "effective_limit ?q = 1"
    by (simp_all add: effective_page_def effective_limit_def Get_def go_eval)
  have lp: "filter (list_predicate ?q) (notes_tbl ?d) =
      [\<lparr>ID = 1, Title = ''a'', Content = [], Tags = [''x''], IsFavorite = False, CreatedAt = 1, UpdatedAt = 1\<rparr>,
       \<lparr>ID = 3, Title = ''c'', Content = [], Tags = [''x''], IsFavorite = False, CreatedAt = 3, UpdatedAt = 3\<rparr>]"
    by (simp add: list_predicate_def note_matches_def Get_def go_eval)
  have off: "list_offset 2 1 = 1" by (simp add: list_offset_def wrap64_def)
  have pg: "list_page ?q ?d =
      [\<lparr>ID = 1, Title = ''a'', Content = [], Tags = [''x''], IsFavorite = False, CreatedAt = 1, UpdatedAt = 1\<rparr>]"
    unfolding list_page_def p lp off by (simp add: order_by_updated_desc_def)
  have h: "status (handleListNotes ?f ?q ?d) = 200"
    by (rule handleListNotes_run) (simp_all add: p off Get_def go_eval)
  from list_total_counts_filter [OF h] obtain items page limit total where
    b: "body (handleListNotes ?f ?q ?d) = ListBody items page limit total"
    and t: "total = int (length (filter (list_predicate ?q) (notes_tbl ?d)))"
    and i: "items = take (nat limit) (drop (nat (list_offset page limit))
                 (order_by_updated_desc (filter (list_predicate ?q) (notes_tbl ?d))))"
    by blast
  from handleListNotes_body [OF h] b have e: "page = 2" "limit = 1" by (simp_all add: p)
  from i have "items = list_page ?q ?d" by (simp add: list_page_def e p)
  with b t show ?thesis by (simp only: pg e lp) simp
qed

section \<open>The favorite parameter\<close>

lemma note_matches_Some:
  "note_matches query tag (Some b) n \<longleftrightarrow> note_matches query tag None n \<and> IsFavorite n = b"
  by (auto simp add: note_matches_def)

lemma ParseBool_Some_True:
  "ParseBool s = Some True \<longleftrightarrow> s \<in> {''1'', ''t'', ''T'', ''TRUE'', ''true'', ''True''}"
  by (simp add: ParseBool_def)

lemma ParseBool_Some_False:
  "ParseBool s = Some False \<longleftrightarrow> s \<in> {''0'', ''f'', ''F'', ''FALSE'', ''false'', ''False''}"
  by (simp add: ParseBool_def)

lemma ParseBool_None:
  "ParseBool s = None \<longleftrightarrow>
     s \<notin> {''1'', ''t'', ''T'', ''TRUE'', ''true'', ''True'', ''0'', ''f'', ''F'', ''FALSE'', ''false'', ''False''}"
  by (simp add: ParseBool_def)

lemma handleListNotes_bad_favorite:
  assumes "TrimSpace (Get q ''favorite'') \<noteq> []" "ParseBool (TrimSpace (Get q ''favorite'')) = None"
  shows "handleListNotes f q d = writeError 400 ''favorite must be true or false''"
  using assms by (simp add: handleListNotes_unfold)

lemma handleListNotes_good_favorite:
  assumes "TrimSpace (Get q ''favorite'') = [] \<or> ParseBool (TrimSpace (Get q ''favorite'')) \<noteq> None"
  shows "status (handleListNotes f q d) = 200 \<or> status (handleListNotes f q d) = 500"
  using assms unfolding handleListNotes_unfold
  by (auto simp add: status_writeError writeJSON_def)

lemma list_predicate_favorite:
  assumes "ParseBool (TrimSpace (Get q ''favorite'')) = Some b"
  shows "list_predicate q = (\<lambda>n. note_matches (TrimSpace (Get q ''query'')) (TrimSpace (Get q ''tag'')) None n
            \<and> IsFavorite n = b)"
  using assms by (simp add: list_predicate_def note_matches_Some fun_eq_iff)

lemma list_predicate_no_favorite:
  assumes "TrimSpace (Get q ''favorite'') = []"
  shows "list_predicate q = note_matches (TrimSpace (Get q ''query'')) (TrimSpace (Get q ''tag'')) None"
  using assms by (simp add: list_predicate_def ParseBool_Nil)

text \<open>
  Claim C10. The trimmed \<open>favorite\<close> parameter goes through \<open>strconv.ParseBool\<close>. The six
  literals that parse as true are accepted and select the favorites, the six that
  parse as false are accepted and select the notes that are not favorites, an empty or
  absent value is accepted and applies no favorite filter; every other value is answered
  with 400 and the error \<open>favorite must be true or false\<close>.
\<close>

theorem favorite_parsed_by_ParseBool:
  "(TrimSpace (Get q ''favorite'') \<in> {''1'', ''t'', ''T'', ''TRUE'', ''true'', ''True''} \<longrightarrow>
      status (handleListNotes f q d) \<noteq> 400
      \<and> (status (handleListNotes f q d) = 200 \<longrightarrow>
           (\<exists>items page limit. body (handleListNotes f q d) = ListBody items page limit
               (int (length (filter (\<lambda>n. note_matches (TrimSpace (Get q ''query''))
                     (TrimSpace (Get q ''tag'')) None n \<and> IsFavorite n) (notes_tbl d))))
              \<and> (\<forall>n \<in> set items. IsFavorite n))))
   \<and> (TrimSpace (Get q ''favorite'') \<in> {''0'', ''f'', ''F'', ''FALSE'', ''false'', ''False''} \<longrightarrow>
      status (handleListNotes f q d) \<noteq> 400
      \<and> (status (handleListNotes f q d) = 200 \<longrightarrow>
           (\<exists>items page limit. body (handleListNotes f q d) = ListBody items page limit
               (int (length (filter (\<lambda>n. note_matches (TrimSpace (Get q ''query''))
                     (TrimSpace (Get q ''tag'')) None n \<and> \<not> IsFavorite n) (notes_tbl d))))
              \<and> (\<forall>n \<in> set items. \<not> IsFavorite n))))
   \<and> (TrimSpace (Get q ''favorite'') = [] \<longrightarrow>
      status (handleListNotes f q d) \<noteq> 400
      \<and> (status (handleListNotes f q d) = 200 \<longrightarrow>
           (\<exists>items page limit. body (handleListNotes f q d) = ListBody items page limit
               (int (length (filter (note_matches (TrimSpace (Get q ''query''))
                     (TrimSpace (Get q ''tag'')) None) (notes_tbl d)))))))
   \<and> (TrimSpace (Get q ''favorite'') \<noteq> []
       \<and> TrimSpace (Get q ''favorite'') \<notin> {''1'', ''t'', ''T'', ''TRUE'', ''true'', ''True'',
            ''0'', ''f'', ''F'', ''FALSE'', ''false'', ''False''} \<longrightarrow>
      handleListNotes f q d
        = \<lparr>status = 400, body = ErrorBody ''favorite must be true or false'', set_cookie = KeepCookie\<rparr>)"
proof (intro conjI impI)
  assume a: "TrimSpace (Get q ''favorite'') \<in> {''1'', ''t'', ''T'', ''TRUE'', ''true'', ''True''}"
  then have p: "ParseBool (TrimSpace (Get q ''favorite'')) = Some True"
    by (rule iffD2 [OF ParseBool_Some_True])
  from handleListNotes_good_favorite [of q f d] p
  show "status (handleListNotes f q d) \<noteq> 400" by auto
  assume s: "status (handleListNotes f q d) = 200"
  have lp: "list_predicate q = (\<lambda>n. note_matches (TrimSpace (Get q ''query''))
                     (TrimSpace (Get q ''tag'')) None n \<and> IsFavorite n)"
    using list_predicate_favorite [OF p] by simp
  have "\<forall>n \<in> set (list_page q d). IsFavorite n"
    using list_page_subset [of _ q d] by (auto simp: lp)
  with handleListNotes_body [OF s]
  show "\<exists>items page limit. body (handleListNotes f q d) = ListBody items page limit
               (int (length (filter (\<lambda>n. note_matches (TrimSpace (Get q ''query''))
                     (TrimSpace (Get q ''tag'')) None n \<and> IsFavorite n) (notes_tbl d))))
              \<and> (\<forall>n \<in> set items. IsFavorite n)"
    by (simp add: lp)
next
  assume a: "TrimSpace (Get q ''favorite'') \<in> {''0'', ''f'', ''F'', ''FALSE'', ''false'', ''False''}"
  then have p: "ParseBool (TrimSpace (Get q ''favorite'')) = Some False"
    by (rule iffD2 [OF ParseBool_Some_False])
  from handleListNotes_good_favorite [of q f d] p
  show "status (handleListNotes f q d) \<noteq> 400" by auto
  assume s: "status (handleListNotes f q d) = 200"
  have lp: "list_predicate q = (\<lambda>n. note_matches (TrimSpace (Get q ''query''))
                     (TrimSpace (Get q ''tag'')) None n \<and> \<not> IsFavorite n)"
    using list_predicate_favorite [OF p] by simp
  have "\<forall>n \<in> set (list_page q d). \<not> IsFavorite n"
    using list_page_subset [of _ q d] by (auto simp: lp)
  with handleListNotes_body [OF s]
  show "\<exists>items page limit. body (handleListNotes f q d) = ListBody items page limit
               (int (length (filter (\<lambda>n. note_matches (TrimSpace (Get q ''query''))
                     (TrimSpace (Get q ''tag'')) None n \<and> \<not> IsFavorite n) (notes_tbl d))))
              \<and> (\<forall>n \<in> set items. \<not> IsFavorite n)"
    by (simp add: lp)
next
  assume a: "TrimSpace (Get q ''favorite'') = []"
  from handleListNotes_good_favorite [of q f d] a
  show "status (handleListNotes f q d) \<noteq> 400" by auto
  assume s: "status (handleListNotes f q d) = 200"
  from handleListNotes_body [OF s]
  show "\<exists>items page limit. body (handleListNotes f q d) = ListBody items page limit
               (int (length (filter (note_matches (TrimSpace (Get q ''query''))
                     (TrimSpace (Get q ''tag'')) None) (notes_tbl d))))"
    by (simp add: list_predicate_no_favorite [OF a])
next
  assume a: "TrimSpace (Get q ''favorite'') \<noteq> []
       \<and> TrimSpace (Get q ''favorite'') \<notin> {''1'', ''t'', ''T'', ''TRUE'', ''true'', ''True'',
            ''0'', ''f'', ''F'', ''FALSE'', ''false'', ''False''}"
  then have "TrimSpace (Get q ''favorite'') \<notin> {''1'', ''t'', ''T'', ''TRUE'', ''true'', ''True'',
            ''0'', ''f'', ''F'', ''FALSE'', ''false'', ''False''}"
    by (rule conjunct2)
  then have "ParseBool (TrimSpace (Get q ''favorite'')) = None"
    by (rule iffD2 [OF ParseBool_None])
  with a handleListNotes_bad_favorite [of q f d]
  show "handleListNotes f q d
        = \<lparr>status = 400, body = ErrorBody ''favorite must be true or false'', set_cookie = KeepCookie\<rparr>"
    by (simp add: writeError_def writeJSON_def)
qed


theorem favorite_parsed_by_ParseBool_witness:
  "body (handleListNotes \<lparr>count_fails = False, query_fails = False, scan_fails = False, rows_fails = False\<rparr>
      [''favorite'' \<mapsto> (CHR 0xC2 # CHR 0xA0 # ''T '')]
      \<lparr>notes_tbl = [\<lparr>ID = 1, Title = ''a'', Content = [], Tags = [], IsFavorite = True, CreatedAt = 1, UpdatedAt = 1\<rparr>,
                     \<lparr>ID = 2, Title = ''b'', Content = [], Tags = [], IsFavorite = False, CreatedAt = 2, UpdatedAt = 2\<rparr>],
        sessions_tbl = []\<rparr>)
     = ListBody [\<lparr>ID = 1, Title = ''a'', Content = [], Tags = [], IsFavorite = True, CreatedAt = 1, UpdatedAt = 1\<rparr>] 1 30 1
   \<and> handleListNotes \<lparr>count_fails = False, query_fails = False, scan_fails = False, rows_fails = False\<rparr>
      [''favorite'' \<mapsto> ''yes''] \<lparr>notes_tbl = [], sessions_tbl = []\<rparr>
     = \<lparr>status = 400, body = ErrorBody ''favorite must be true or false'', set_cookie = KeepCookie\<rparr>"
proof -
  let ?f = "\<lparr>count_fails = False, query_fails = False, scan_fails = False, rows_fails = False\<rparr>"
  let ?q = "[''favorite'' \<mapsto> (CHR 0xC2 # CHR 0xA0 # ''T '')]"
  let ?q2 = "[''favorite'' \<mapsto> ''yes'']"
  let ?n1 = "\<lparr>ID = 1, Title = ''a'', Content = [], Tags = [], IsFavorite = True, CreatedAt = 1, UpdatedAt = 1\<rparr>"
  let ?n2 = "\<lparr>ID = 2, Title = ''b'', Content = [], Tags = [], IsFavorite = False, CreatedAt = 2, UpdatedAt = 2\<rparr>"
  let ?d = "\<lparr>notes_tbl = [?n1, ?n2], sessions_tbl = []\<rparr>"
  let ?d2 = "\<lparr>notes_tbl = [], sessions_tbl = []\<rparr>"
  have t: "TrimSpace (Get ?q ''favorite'') = ''T''" "TrimSpace (Get ?q ''query'') = []"
    "TrimSpace (Get ?q ''tag'') = []"
    by (simp_all add: Get_def go_eval)
  have t2: "TrimSpace (Get ?q2 ''favorite'') = ''yes''"
    by (simp add: Get_def go_eval)
  have p: "effective_page ?q = 1" "effective_limit ?q = 30"
    by (simp_all add: effective_page_def effective_limit_def Get_def go_eval)
  have off: "list_offset 1 30 = 0" by (simp add: list_offset_def wrap64_def)
  have h1: "TrimSpace (Get ?q ''favorite'') \<in> {''1'', ''t'', ''T'', ''TRUE'', ''true'', ''True''}"
    by (simp add: t)
  have h2: "status (handleListNotes ?f ?q ?d) = 200"
    by (rule handleListNotes_run) (simp_all add: p off t ParseBool_def)
  have h3: "TrimSpace (Get ?q2 ''favorite'') \<noteq> []
       \<and> TrimSpace (Get ?q2 ''favorite'') \<notin> {''1'', ''t'', ''T'', ''TRUE'', ''true'', ''True'',
            ''0'', ''f'', ''F'', ''FALSE'', ''false'', ''False''}"
    by (simp add: t2)
  have b: "body (handleListNotes ?f ?q ?d) = ListBody (list_page ?q ?d) 1 30
             (int (length (filter (list_predicate ?q) (notes_tbl ?d))))"
    using handleListNotes_body [OF h2] by (simp add: p)
  have pg: "list_page ?q ?d = [?n1]"
    by (simp add: list_page_def p off list_predicate_def t note_matches_def ParseBool_def
        order_by_updated_desc_def)
  from favorite_parsed_by_ParseBool [of ?q ?f ?d] h1 h2
  obtain items page limit where
    "body (handleListNotes ?f ?q ?d) = ListBody items page limit
       (int (length (filter (\<lambda>n. note_matches (TrimSpace (Get ?q ''query''))
              (TrimSpace (Get ?q ''tag'')) None n \<and> IsFavorite n) (notes_tbl ?d))))"
    by blast
  with b pg have 1: "body (handleListNotes ?f ?q ?d) = ListBody [?n1] 1 30 1"
    by (simp add: t note_matches_def)
  from favorite_parsed_by_ParseBool [of ?q2 ?f ?d2] h3
  have 2: "handleListNotes ?f ?q2 ?d2
     = \<lparr>status = 400, body = ErrorBody ''favorite must be true or false'', set_cookie = KeepCookie\<rparr>"
    by blast
  from 1 2 show ?thesis by (rule conjI)
qed

section \<open>The order of a list call\<close>

lemma ne_set_nonempty: "x \<in> set xs \<Longrightarrow> xs \<noteq> []"
  by auto

lemma sorted_order_by_updated_desc:
  "sorted_wrt (\<lambda>a b. UpdatedAt b \<le> UpdatedAt a) (order_by_updated_desc ns)"
proof -
  have "sorted (map (\<lambda>n. - UpdatedAt n) (order_by_updated_desc ns))"
    unfolding order_by_updated_desc_def by (rule sorted_sort_key)
  then show ?thesis by (simp add: sorted_map)
qed

lemma sorted_list_page: "sorted_wrt (\<lambda>a b. UpdatedAt b \<le> UpdatedAt a) (list_page q d)"
  unfolding list_page_def
  by (intro sorted_wrt_take sorted_wrt_drop sorted_order_by_updated_desc)

lemma hd_sort_key_unique_min:
  assumes "x \<in> set xs" and "\<forall>y \<in> set xs. y \<noteq> x \<longrightarrow> f x < f y"
  shows "hd (sort_key f xs) = x"
proof -
  let ?s = "sort_key f xs"
  have set: "set ?s = set xs" by simp
  with assms(1) have "x \<in> set ?s" by simp
  then have ne: "?s \<noteq> []" by (rule ne_set_nonempty)
  then obtain h t where ht: "?s = h # t" by (cases ?s) auto
  have "sorted (map f ?s)" by (rule sorted_sort_key)
  with ht have le: "\<forall>y \<in> set t. f h \<le> f y" by simp
  have hin: "h \<in> set xs" using set ht by auto
  have "h = x"
  proof (rule ccontr)
    assume "h \<noteq> x"
    with assms(2) hin have lt: "f x < f h" by simp
    from assms(1) set ht \<open>h \<noteq> x\<close> have "x \<in> set t" by auto
    with le have "f h \<le> f x" by simp
    with lt show False by simp
  qed
  with ht show ?thesis by simp
qed

lemma list_predicate_unfiltered:
  assumes "TrimSpace (Get q ''query'') = []" "TrimSpace (Get q ''tag'') = []"
    "TrimSpace (Get q ''favorite'') = []"
  shows "list_predicate q = (\<lambda>n. True)"
  using assms by (simp add: list_predicate_def note_matches_def ParseBool_Nil fun_eq_iff)

lemma list_offset_first_page: "list_offset 1 limit = 0"
  by (simp add: list_offset_def wrap64_def)

lemma hd_list_page_unfiltered:
  assumes "TrimSpace (Get q ''query'') = []" "TrimSpace (Get q ''tag'') = []"
    "TrimSpace (Get q ''favorite'') = []" "effective_page q = 1" "notes_tbl d \<noteq> []"
  shows "list_page q d \<noteq> [] \<and> hd (list_page q d) = hd (order_by_updated_desc (notes_tbl d))"
proof -
  have l: "0 < nat (effective_limit q)" using effective_limit_range [of q] by simp
  have p: "list_page q d = take (nat (effective_limit q)) (order_by_updated_desc (notes_tbl d))"
    by (simp add: list_page_def list_predicate_unfiltered assms list_offset_first_page)
  have ne: "order_by_updated_desc (notes_tbl d) \<noteq> []"
    using assms(5) set_order_by_updated_desc [of "notes_tbl d"] by (metis set_empty)
  show ?thesis using l ne unfolding p by (cases "order_by_updated_desc (notes_tbl d)") (auto simp: take_Suc_conv_app_nth hd_take)
qed


lemma UpdatedAt_updated_row: "UpdatedAt (updated_row lower now req n) = now"
  by (simp add: updated_row_def)

lemma updated_row_first:
  assumes n0: "n0 \<in> set ns" "ID n0 = i"
    and dist: "distinct (map ID ns)"
    and old: "\<forall>m \<in> set ns. UpdatedAt m < now"
  shows "hd (order_by_updated_desc (map (\<lambda>m. if ID m = i then updated_row lower now req m else m) ns))
           = updated_row lower now req n0"
  unfolding order_by_updated_desc_def
proof (rule hd_sort_key_unique_min)
  let ?g = "\<lambda>m. if ID m = i then updated_row lower now req m else m"
  have "?g n0 \<in> ?g ` set ns" using n0(1) by (rule imageI)
  then show "updated_row lower now req n0 \<in> set (map ?g ns)" using n0(2) by simp
  show "\<forall>y \<in> set (map ?g ns). y \<noteq> updated_row lower now req n0 \<longrightarrow>
          - UpdatedAt (updated_row lower now req n0) < - UpdatedAt y"
  proof (intro ballI impI)
    fix y assume y: "y \<in> set (map ?g ns)" and ne: "y \<noteq> updated_row lower now req n0"
    from y have "y \<in> ?g ` set ns" by simp
    then obtain m where m: "m \<in> set ns" "y = ?g m" by (rule imageE)
    have "ID m \<noteq> i"
    proof
      assume e: "ID m = i"
      from dist have "inj_on ID (set ns)" by (simp add: distinct_map)
      with m(1) n0 e have "m = n0" by (auto dest: inj_onD)
      with m(2) e ne show False by simp
    qed
    with m(2) have "y = m" by simp
    with m(1) old have "UpdatedAt y < now" by simp
    then show "- UpdatedAt (updated_row lower now req n0) < - UpdatedAt y"
      by (simp add: UpdatedAt_updated_row)
  qed
qed

text \<open>
  Claim C5. The items of a list call that answers 200 are in descending order of
  \<open>updated_at\<close>. An update that succeeds sets \<open>updated_at\<close> to the clock value \<open>now\<close>;
  when every stored \<open>updated_at\<close> is earlier than that value (the clock moves forward
  and nothing was written later) and ids are unique (the primary key), the updated note
  is the first item of the next list call without filters on page 1.
\<close>

theorem list_sorted_and_update_first:
  "(status (handleListNotes f q d) = 200 \<longrightarrow>
      (\<exists>items page limit total. body (handleListNotes f q d) = ListBody items page limit total
         \<and> sorted_wrt (\<lambda>a b. UpdatedAt b \<le> UpdatedAt a) items))
   \<and> (handleUpdateNote lower parse db_ok now raw body_json d = (resp, d') \<and> status resp = 200
      \<and> distinct (map ID (notes_tbl d)) \<and> (\<forall>m \<in> set (notes_tbl d). UpdatedAt m < now)
      \<and> TrimSpace (Get q2 ''query'') = [] \<and> TrimSpace (Get q2 ''tag'') = []
      \<and> TrimSpace (Get q2 ''favorite'') = [] \<and> effective_page q2 = 1
      \<and> status (handleListNotes f2 q2 d') = 200 \<longrightarrow>
      (\<exists>n items page limit total. body resp = NoteBody n \<and> UpdatedAt n = now
         \<and> body (handleListNotes f2 q2 d') = ListBody items page limit total
         \<and> items \<noteq> [] \<and> hd items = n))"
proof (intro conjI impI)
  assume "status (handleListNotes f q d) = 200"
  from handleListNotes_body [OF this] sorted_list_page [of q d]
  show "\<exists>items page limit total. body (handleListNotes f q d) = ListBody items page limit total
         \<and> sorted_wrt (\<lambda>a b. UpdatedAt b \<le> UpdatedAt a) items"
    by blast
next
  assume a: "handleUpdateNote lower parse db_ok now raw body_json d = (resp, d') \<and> status resp = 200
      \<and> distinct (map ID (notes_tbl d)) \<and> (\<forall>m \<in> set (notes_tbl d). UpdatedAt m < now)
      \<and> TrimSpace (Get q2 ''query'') = [] \<and> TrimSpace (Get q2 ''tag'') = []
      \<and> TrimSpace (Get q2 ''favorite'') = [] \<and> effective_page q2 = 1
      \<and> status (handleListNotes f2 q2 d') = 200"
  then have u: "handleUpdateNote lower parse db_ok now raw body_json d = (resp, d')" "status resp = 200"
    and dist: "distinct (map ID (notes_tbl d))"
    and old: "\<forall>m \<in> set (notes_tbl d). UpdatedAt m < now"
    and unf: "TrimSpace (Get q2 ''query'') = []" "TrimSpace (Get q2 ''tag'') = []"
      "TrimSpace (Get q2 ''favorite'') = []" "effective_page q2 = 1"
    and ok: "status (handleListNotes f2 q2 d') = 200"
    by blast+
  from handleUpdateNote_ok [OF u] obtain req i n0 where
    f: "find (\<lambda>n. ID n = i) (notes_tbl d) = Some n0"
    and r: "resp = writeJSON 200 (NoteBody (updated_row lower now req n0))"
    and d': "d' = d\<lparr>notes_tbl := map (\<lambda>m. if ID m = i then updated_row lower now req m else m)
                                   (notes_tbl d)\<rparr>"
    by blast
  from f have n0: "n0 \<in> set (notes_tbl d)" "ID n0 = i" by (auto simp: find_Some_iff)
  have tbl: "notes_tbl d' = map (\<lambda>m. if ID m = i then updated_row lower now req m else m) (notes_tbl d)"
    by (simp add: d')
  have ne: "notes_tbl d' \<noteq> []" using n0(1) by (auto simp: tbl)
  have h: "hd (order_by_updated_desc (notes_tbl d')) = updated_row lower now req n0"
    unfolding tbl by (rule updated_row_first [OF n0 dist old])
  from hd_list_page_unfiltered [OF unf ne] h
  have p: "list_page q2 d' \<noteq> []" "hd (list_page q2 d') = updated_row lower now req n0" by simp_all
  have b: "body resp = NoteBody (updated_row lower now req n0)" by (simp add: r writeJSON_def)
  from handleListNotes_body [OF ok] p b UpdatedAt_updated_row [of lower now req n0]
  show "\<exists>n items page limit total. body resp = NoteBody n \<and> UpdatedAt n = now
         \<and> body (handleListNotes f2 q2 d') = ListBody items page limit total
         \<and> items \<noteq> [] \<and> hd items = n"
    by blast
qed

theorem list_sorted_and_update_first_witness:
  "body (handleListNotes \<lparr>count_fails = False, query_fails = False, scan_fails = False, rows_fails = False\<rparr>
      Map.empty
      (snd (handleUpdateNote (\<lambda>s. s) (\<lambda>s. if s = ''two'' then Some 20 else None) True 5 ''two''
         (Some \<lparr>req_title = ''b2'', req_content = ''c'', req_tags = [], req_is_favorite = False\<rparr>)
         \<lparr>notes_tbl = [\<lparr>ID = 10, Title = ''a'', Content = [], Tags = [], IsFavorite = False, CreatedAt = 3, UpdatedAt = 3\<rparr>,
                        \<lparr>ID = 20, Title = ''b'', Content = [], Tags = [], IsFavorite = False, CreatedAt = 2, UpdatedAt = 2\<rparr>],
           sessions_tbl = []\<rparr>)))
   = ListBody [\<lparr>ID = 20, Title = ''b2'', Content = ''c'', Tags = [], IsFavorite = False, CreatedAt = 2, UpdatedAt = 5\<rparr>,
               \<lparr>ID = 10, Title = ''a'', Content = [], Tags = [], IsFavorite = False, CreatedAt = 3, UpdatedAt = 3\<rparr>]
        1 30 2"
proof -
  let ?f = "\<lparr>count_fails = False, query_fails = False, scan_fails = False, rows_fails = False\<rparr>"
  let ?q = "Map.empty :: query_params"
  let ?parse = "\<lambda>s. if s = ''two'' then Some (20::nat) else None"
  let ?req = "\<lparr>req_title = ''b2'', req_content = ''c'', req_tags = [], req_is_favorite = False\<rparr>"
  let ?n1 = "\<lparr>ID = 10, Title = ''a'', Content = [], Tags = [], IsFavorite = False, CreatedAt = 3, UpdatedAt = 3\<rparr>"
  let ?n2 = "\<lparr>ID = 20, Title = ''b'', Content = [], Tags = [], IsFavorite = False, CreatedAt = 2, UpdatedAt = 2\<rparr>"
  let ?n2' = "\<lparr>ID = 20, Title = ''b2'', Content = ''c'', Tags = [], IsFavorite = False, CreatedAt = 2, UpdatedAt = 5\<rparr>"
  let ?d = "\<lparr>notes_tbl = [?n1, ?n2], sessions_tbl = []\<rparr>"
  let ?u = "handleUpdateNote (\<lambda>s. s) ?parse True 5 ''two'' (Some ?req) ?d"
  have u: "?u = (writeJSON 200 (NoteBody ?n2'), \<lparr>notes_tbl = [?n1, ?n2'], sessions_tbl = []\<rparr>)"
    by (simp add: handleUpdateNote_unfold parseUUIDParam_def updated_row_def stored_title_def go_eval)
  have t: "TrimSpace (Get ?q ''query'') = []" "TrimSpace (Get ?q ''tag'') = []"
    "TrimSpace (Get ?q ''favorite'') = []"
    by (simp_all add: Get_def go_eval)
  have p: "effective_page ?q = 1" "effective_limit ?q = 30"
    by (simp_all add: effective_page_def effective_limit_def Get_def go_eval)
  have ok: "status (handleListNotes ?f ?q (snd ?u)) = 200"
    by (rule handleListNotes_run) (simp_all add: p t list_offset_first_page)
  have hyp: "?u = (fst ?u, snd ?u) \<and> status (fst ?u) = 200
      \<and> distinct (map ID (notes_tbl ?d)) \<and> (\<forall>m \<in> set (notes_tbl ?d). UpdatedAt m < 5)
      \<and> TrimSpace (Get ?q ''query'') = [] \<and> TrimSpace (Get ?q ''tag'') = []
      \<and> TrimSpace (Get ?q ''favorite'') = [] \<and> effective_page ?q = 1
      \<and> status (handleListNotes ?f ?q (snd ?u)) = 200"
    using ok t p by (simp add: u writeJSON_def)
  from list_sorted_and_update_first
         [of ?f ?q ?d "\<lambda>s. s" ?parse True 5 "''two''" "Some ?req" "fst ?u" "snd ?u" ?q ?f] hyp
  obtain n items page limit total where
    "body (fst ?u) = NoteBody n"
    "body (handleListNotes ?f ?q (snd ?u)) = ListBody items page limit total" "hd items = n"
    by blast
  then have "\<exists>items page limit total.
       body (handleListNotes ?f ?q (snd ?u)) = ListBody items page limit total \<and> hd items = ?n2'"
    by (auto simp add: u writeJSON_def)
  moreover have "body (handleListNotes ?f ?q (snd ?u)) = ListBody [?n2', ?n1] 1 30 2"
    using handleListNotes_body [OF ok]
    by (simp add: p u list_page_def list_predicate_unfiltered t list_offset_first_page
        order_by_updated_desc_def)
  ultimately show ?thesis by simp
qed

section \<open>Create, get and delete\<close>

lemma find_append_skip: "\<forall>x \<in> set xs. \<not> P x \<Longrightarrow> find P (xs @ ys) = find P ys"
  by (induction xs) auto

lemma handleGetNote_parsed:
  assumes "raw \<noteq> []" "parse raw = Some i"
  shows "handleGetNote parse True raw d =
           (case find (\<lambda>n. ID n = i) (notes_tbl d) of
              None \<Rightarrow> writeError 404 ''note not found''
            | Some n \<Rightarrow> writeJSON 200 (NoteBody n))"
  using assms by (simp add: handleGetNote_def parseUUIDParam_def)

lemma handleDeleteNote_ok:
  assumes "handleDeleteNote parse db_ok raw d = (resp, d')" "status resp = 204"
  shows "\<exists>i. raw \<noteq> [] \<and> parse raw = Some i \<and> db_ok
           \<and> d' = d\<lparr>notes_tbl := filter (\<lambda>n. ID n \<noteq> i) (notes_tbl d)\<rparr>"
proof (cases "parseUUIDParam parse ''id'' raw")
  case (Inl msg)
  with assms show ?thesis by (auto simp: handleDeleteNote_def status_writeError)
next
  case (Inr i)
  then have p: "raw \<noteq> []" "parse raw = Some i" by (simp_all add: parseUUIDParam_Inr)
  show ?thesis
  proof (cases db_ok)
    case False
    with Inr assms show ?thesis by (auto simp: handleDeleteNote_def status_writeError)
  next
    case True
    show ?thesis
    proof (cases "filter (\<lambda>n. ID n = i) (notes_tbl d) = []")
      case e: True
      with Inr True assms show ?thesis by (auto simp: handleDeleteNote_def status_writeError)
    next
      case e: False
      with Inr True assms have "d' = d\<lparr>notes_tbl := filter (\<lambda>n. ID n \<noteq> i) (notes_tbl d)\<rparr>"
        by (auto simp: handleDeleteNote_def)
      with p True show ?thesis by blast
    qed
  qed
qed

lemma handleDeleteNote_existing:
  assumes "raw \<noteq> []" "parse raw = Some i" "i \<in> ID ` set (notes_tbl d)"
  shows "status (fst (handleDeleteNote parse True raw d)) = 204"
proof -
  from assms(3) have "filter (\<lambda>n. ID n = i) (notes_tbl d) \<noteq> []"
    by (auto simp: filter_empty_conv)
  with assms(1,2) show ?thesis
    by (simp add: handleDeleteNote_def parseUUIDParam_def)
qed

text \<open>
  Claim C8. After a create that answers 201, a get on the returned id answers 200 with
  the note of the create response, whose fields are the normalized title and tags, the
  content and the favorite flag as submitted. After a delete that answers 204, a get on
  the same id answers 404 \<open>note not found\<close>; and a delete of an id that is in the table
  answers 204 when the database does not fail.
\<close>

theorem create_get_delete_roundtrip:
  "(handleCreateNote lower db_ok now new_id (Some req) d = (resp, d') \<and> status resp = 201
      \<and> raw \<noteq> [] \<and> parse raw = Some new_id \<longrightarrow>
      body resp = NoteBody \<lparr>ID = new_id, Title = stored_title (req_title req),
                    Content = req_content req, Tags = sanitizeTags lower (req_tags req),
                    IsFavorite = req_is_favorite req, CreatedAt = now, UpdatedAt = now\<rparr>
      \<and> handleGetNote parse True raw d' = \<lparr>status = 200, body = body resp, set_cookie = KeepCookie\<rparr>)
   \<and> (handleDeleteNote parse2 db_ok2 raw2 d2 = (resp2, d2') \<and> status resp2 = 204 \<longrightarrow>
      handleGetNote parse2 True raw2 d2'
        = \<lparr>status = 404, body = ErrorBody ''note not found'', set_cookie = KeepCookie\<rparr>)
   \<and> (raw3 \<noteq> [] \<and> parse3 raw3 = Some i \<and> i \<in> ID ` set (notes_tbl d3) \<longrightarrow>
      status (fst (handleDeleteNote parse3 True raw3 d3)) = 204)"
proof (intro conjI impI)
  assume a: "handleCreateNote lower db_ok now new_id (Some req) d = (resp, d') \<and> status resp = 201
      \<and> raw \<noteq> [] \<and> parse raw = Some new_id"
  then have c: "handleCreateNote lower db_ok now new_id (Some req) d = (resp, d')" "status resp = 201"
    and p: "raw \<noteq> []" "parse raw = Some new_id" by blast+
  from handleCreateNote_ok [OF c]
  have fresh: "new_id \<notin> ID ` set (notes_tbl d)"
    and r: "resp = writeJSON 201 (NoteBody (created_row lower now new_id req))"
    and d': "d' = d\<lparr>notes_tbl := notes_tbl d @ [created_row lower now new_id req]\<rparr>"
    by auto
  show b: "body resp = NoteBody \<lparr>ID = new_id, Title = stored_title (req_title req),
                    Content = req_content req, Tags = sanitizeTags lower (req_tags req),
                    IsFavorite = req_is_favorite req, CreatedAt = now, UpdatedAt = now\<rparr>"
    by (simp add: r writeJSON_def created_row_def)
  have "\<forall>x \<in> set (notes_tbl d). \<not> ID x = new_id" using fresh by auto
  then have "find (\<lambda>n. ID n = new_id) (notes_tbl d') = Some (created_row lower now new_id req)"
    by (simp add: d' find_append_skip created_row_def)
  then show "handleGetNote parse True raw d' = \<lparr>status = 200, body = body resp, set_cookie = KeepCookie\<rparr>"
    by (simp add: handleGetNote_parsed [of raw parse new_id, OF p] r writeJSON_def)
next
  assume a: "handleDeleteNote parse2 db_ok2 raw2 d2 = (resp2, d2') \<and> status resp2 = 204"
  then have "handleDeleteNote parse2 db_ok2 raw2 d2 = (resp2, d2')" "status resp2 = 204" by blast+
  from handleDeleteNote_ok [OF this] obtain i where p: "raw2 \<noteq> []" "parse2 raw2 = Some i"
    and d': "d2' = d2\<lparr>notes_tbl := filter (\<lambda>n. ID n \<noteq> i) (notes_tbl d2)\<rparr>" by blast
  have "find (\<lambda>n. ID n = i) (notes_tbl d2') = None"
    by (simp add: d' find_None_iff)
  then show "handleGetNote parse2 True raw2 d2'
        = \<lparr>status = 404, body = ErrorBody ''note not found'', set_cookie = KeepCookie\<rparr>"
    by (simp add: handleGetNote_parsed [of raw2 parse2 i, OF p] writeError_def writeJSON_def)
next
  assume "raw3 \<noteq> [] \<and> parse3 raw3 = Some i \<and> i \<in> ID ` set (notes_tbl d3)"
  then show "status (fst (handleDeleteNote parse3 True raw3 d3)) = 204"
    by (blast intro: handleDeleteNote_existing)
qed

theorem create_get_delete_roundtrip_witness:
  "handleGetNote (\<lambda>s. if s = ''ten'' then Some 10 else None) True ''ten''
     (snd (handleCreateNote (\<lambda>s. s) True 7 10
        (Some \<lparr>req_title = ''  '', req_content = ''x'', req_tags = [''A'', ''a''], req_is_favorite = False\<rparr>)
        \<lparr>notes_tbl = [], sessions_tbl = []\<rparr>))
     = \<lparr>status = 200,
        body = NoteBody \<lparr>ID = 10, Title = ''Untitled'', Content = ''x'', Tags = [''a''],
                         IsFavorite = False, CreatedAt = 7, UpdatedAt = 7\<rparr>,
        set_cookie = KeepCookie\<rparr>
   \<and> handleGetNote (\<lambda>s. if s = ''ten'' then Some 10 else None) True ''ten''
       (snd (handleDeleteNote (\<lambda>s. if s = ''ten'' then Some 10 else None) True ''ten''
          \<lparr>notes_tbl = [\<lparr>ID = 10, Title = ''Untitled'', Content = ''x'', Tags = [''a''],
                         IsFavorite = False, CreatedAt = 7, UpdatedAt = 7\<rparr>], sessions_tbl = []\<rparr>))
     = \<lparr>status = 404, body = ErrorBody ''note not found'', set_cookie = KeepCookie\<rparr>"
proof -
  let ?parse = "\<lambda>s. if s = ''ten'' then Some (10::nat) else None"
  let ?req = "\<lparr>req_title = ''  '', req_content = ''x'', req_tags = [''A'', ''a''], req_is_favorite = False\<rparr>"
  let ?d0 = "\<lparr>notes_tbl = [], sessions_tbl = []\<rparr>"
  let ?n = "\<lparr>ID = 10, Title = ''Untitled'', Content = ''x'', Tags = [''a''],
                         IsFavorite = False, CreatedAt = 7, UpdatedAt = 7\<rparr>"
  let ?d1 = "\<lparr>notes_tbl = [?n], sessions_tbl = []\<rparr>"
  let ?c = "handleCreateNote (\<lambda>s. s) True 7 10 (Some ?req) ?d0"
  let ?x = "handleDeleteNote ?parse True ''ten'' ?d1"
  have c: "?c = (fst ?c, snd ?c) \<and> status (fst ?c) = 201 \<and> ''ten'' \<noteq> [] \<and> ?parse ''ten'' = Some 10"
    by (simp add: handleCreateNote_unfold writeJSON_def)
  have x: "?x = (fst ?x, snd ?x) \<and> status (fst ?x) = 204"
    by (simp add: handleDeleteNote_def parseUUIDParam_def)
  have v: "stored_title ''  '' = ''Untitled''" "sanitizeTags (\<lambda>s. s) [''A'', ''a''] = [''a'']"
    by (simp_all add: stored_title_def go_eval)
  from create_get_delete_roundtrip
         [of "\<lambda>s. s" True 7 10 ?req ?d0 "fst ?c" "snd ?c" "''ten''" ?parse
             ?parse True "''ten''" ?d1 "fst ?x" "snd ?x"] c x
  have "body (fst ?c) = NoteBody \<lparr>ID = 10, Title = stored_title (req_title ?req),
                    Content = req_content ?req,
                    Tags = sanitizeTags (\<lambda>s. s) (req_tags ?req),
                    IsFavorite = req_is_favorite ?req, CreatedAt = 7, UpdatedAt = 7\<rparr>"
    and "handleGetNote ?parse True ''ten'' (snd ?c)
           = \<lparr>status = 200, body = body (fst ?c), set_cookie = KeepCookie\<rparr>"
    and "handleGetNote ?parse True ''ten'' (snd ?x)
        = \<lparr>status = 404, body = ErrorBody ''note not found'', set_cookie = KeepCookie\<rparr>"
    by blast+
  then show ?thesis by (simp add: v)
qed

section \<open>The migration runner\<close>



lemma runMigrations_body_skip:
  "check_ok env name \<Longrightarrow> name \<in> set (ledger d) \<Longrightarrow> runMigrations_body env name d = (None, d)"
  by (simp add: runMigrations_body_def)










end
